theory Spec2Isabelle
  imports Complex_Main "HOL-Library.Word"
begin

unbundle bit_operations_syntax

section \<open>Data model of the scene delegate\<close>

text \<open>
  The development embeds \<^verbatim>\<open>MayaHydraSceneDelegate\<close> (sceneDelegate.cpp). Names are
  those of the source; a private member \<^verbatim>\<open>_Foo\<close> is written \<open>priv_Foo\<close>, a
  data member \<^verbatim>\<open>_foo\<close> is the record field \<open>foo\<close>.
\<close>

subsection \<open>Paths and host handles\<close>

text \<open>
  \<^verbatim>\<open>SdfPath\<close> (USD): a prim path, or a prim path with a property part. The
  empty path is the prim path with the empty text.
\<close>

datatype SdfPath = PrimPath string | PropertyPath string string

definition EmptyPath :: SdfPath where
  "EmptyPath = PrimPath []"



text \<open>\<^verbatim>\<open>MObject\<close>: a host node handle; \<^verbatim>\<open>isNull()\<close> is equality with \<open>kNullObj\<close>.\<close>

datatype MObject = kNullObj | Node nat

definition isNull :: "MObject \<Rightarrow> bool" where
  "isNull obj = (obj = kNullObj)"

text \<open>\<^verbatim>\<open>MDagPath\<close>: identified by its full path name.\<close>

type_synonym MDagPath = string

definition fullPathName :: "MDagPath \<Rightarrow> string" where
  "fullPathName dag = dag"

type_synonym GfMatrix4d = "real list list"


datatype Primitive =
  kInvalidPrimitive | kPoints | kLines | kLineStrip | kTriangles | kTriangleStrip
  | kAdjacentTriangles | kAdjacentTriangleStrip | kAdjacentLines | kAdjacentLineStrip | kPatch

datatype DirtyBit =
  DirtyMaterialId | DirtyInstancer | DirtyInstanceIndex | DirtyPrimvar

subsection \<open>Adapters\<close>

text \<open>
  Modelled from the spec: the adapter classes are declared outside the files at hand. An
  adapter is the state the delegate reads or writes through the adapter's accessors
  (\<^verbatim>\<open>GetID\<close>, \<^verbatim>\<open>GetFastID\<close>, \<^verbatim>\<open>GetPrimitive\<close>, \<^verbatim>\<open>GetMaterial\<close>, \<^verbatim>\<open>GetDagPath\<close>,
  \<^verbatim>\<open>IsSupported\<close>, \<^verbatim>\<open>IsInstanced\<close>, \<^verbatim>\<open>SetLightingOn\<close>,
  \<^verbatim>\<open>SetShadowProjectionMatrix\<close>, \<^verbatim>\<open>EnableXRayShadingMode\<close>). \<open>ma_TagStale\<close> is
  what \<^verbatim>\<open>UpdateMaterialTag\<close> will report: whether re-deriving the material's shading
  classification gives a new one. Calls that only reach the host or the render index
  (\<^verbatim>\<open>Populate\<close>, \<^verbatim>\<open>RemovePrim\<close>, \<^verbatim>\<open>CreateCallbacks\<close>, \<^verbatim>\<open>RemoveCallbacks\<close>,
  \<^verbatim>\<open>MarkDirty\<close>) are recorded in the order they are made, in the delegate's \<open>calls\<close>.
\<close>

record RenderItemAdapter =
  ria_ID :: SdfPath
  ria_FastID :: int
  ria_Primitive :: Primitive
  ria_Material :: SdfPath

record ShapeAdapter =
  sa_DagPath :: MDagPath
  sa_IsSupported :: bool
  sa_Material :: MObject
  sa_IsInstanced :: bool

record LightAdapter =
  la_DagPath :: MDagPath
  la_IsSupported :: bool
  la_LightingOn :: bool
  la_ShadowProjectionMatrix :: "GfMatrix4d option"

record CameraAdapter =
  ca_DagPath :: MDagPath
  ca_IsSupported :: bool

record MaterialAdapter =
  ma_IsSupported :: bool
  ma_XRay :: bool
  ma_TagStale :: bool

datatype AdapterKind = KRenderItem | KShape | KLight | KCamera | KMaterial

datatype Call =
  RemoveCallbacks AdapterKind SdfPath
  | CreateCallbacks AdapterKind SdfPath
  | RemovePrim AdapterKind SdfPath
  | Populate AdapterKind SdfPath
  | MarkDirty AdapterKind SdfPath "DirtyBit list"
  | MarkRprimDirty SdfPath "DirtyBit list"
  | TfWarn SdfPath

subsection \<open>Tables\<close>

text \<open>
  An \<^verbatim>\<open>unordered_map\<close> is an association list with distinct keys, in the order the
  table is iterated. \<^verbatim>\<open>insert\<close> and \<^verbatim>\<open>emplace\<close> keep an entry that is already
  there; \<^verbatim>\<open>TfMapLookupPtr\<close> is \<open>map_of\<close>. The source leaves open where a new entry
  comes in the iteration (the hash decides); here it comes last, and no property below
  rests on the order in which a table with several entries is iterated.
\<close>

definition tbl_insert :: "'k \<Rightarrow> 'v \<Rightarrow> ('k \<times> 'v) list \<Rightarrow> ('k \<times> 'v) list" where
  "tbl_insert k v t = (if map_of t k = None then t @ [(k, v)] else t)"

definition tbl_erase :: "'k \<Rightarrow> ('k \<times> 'v) list \<Rightarrow> ('k \<times> 'v) list" where
  "tbl_erase k t = filter (\<lambda>e. fst e \<noteq> k) t"

subsection \<open>The delegate\<close>

text \<open>
  The render index is owned by the renderer; the delegate reads its render prims, each
  with the material it is bound to (\<^verbatim>\<open>GetRprimIds\<close>, \<^verbatim>\<open>GetRprim(id)->GetMaterialId()\<close>).
  The creator function stored beside a queued light is never read again, so
  \<open>lightsToAdd\<close> holds the node handles.
\<close>

record Delegate =
  renderItemsAdaptersFast :: "(int \<times> RenderItemAdapter) list"
  renderItemsAdapters :: "(SdfPath \<times> RenderItemAdapter) list"
  shapeAdapters :: "(SdfPath \<times> ShapeAdapter) list"
  lightAdapters :: "(SdfPath \<times> LightAdapter) list"
  cameraAdapters :: "(SdfPath \<times> CameraAdapter) list"
  materialAdapters :: "(SdfPath \<times> MaterialAdapter) list"
  lightsToAdd :: "MObject list"
  addedNodes :: "MObject list"
  adaptersToRecreate :: "(SdfPath \<times> MObject) list"
  adaptersToRebuild :: "(SdfPath \<times> 32 word) list"
  materialTagsChanged :: "SdfPath list"
  useDefaultMaterial :: bool
  xRayEnabled :: bool
  rprims :: "(SdfPath \<times> SdfPath) list"
  calls :: "Call list"

text \<open>
  What the delegate asks of the host application, of the adapter registry and of the
  parts of the plug-in declared elsewhere (\<^verbatim>\<open>RebuildFlagPrim\<close>,
  \<^verbatim>\<open>RebuildFlagCallbacks\<close>, \<^verbatim>\<open>kInvalidMaterial\<close>, \<^verbatim>\<open>GetPrimPath\<close>,
  \<^verbatim>\<open>GetMaterialPath\<close>, \<^verbatim>\<open>IsHdSt\<close>, \<^verbatim>\<open>GetLightsEnabled\<close>): a parameter of every
  operation. A creator is \<open>None\<close> where the registry has none; a creator returns
  \<open>None\<close> for a null adapter.
\<close>

record Host =
  useMeshAdapter :: bool
  IsHdSt :: bool
  GetLightsEnabled :: bool
  RebuildFlagPrim :: "32 word"
  RebuildFlagCallbacks :: "32 word"
  kInvalidMaterial :: SdfPath
  GetPrimPath :: "MDagPath \<Rightarrow> bool \<Rightarrow> SdfPath"
  GetMaterialPath :: "MObject \<Rightarrow> SdfPath"
  isValid :: "MObject \<Rightarrow> bool"
  IsUfeItemFromMayaUsd_obj :: "MObject \<Rightarrow> bool"
  IsUfeItemFromMayaUsd :: "MDagPath \<Rightarrow> bool"
  GetLightAdapterCreator_obj :: "MObject \<Rightarrow> bool"
  GetLightAdapterCreator :: "MDagPath \<Rightarrow> (MDagPath \<Rightarrow> LightAdapter option) option"
  GetCameraAdapterCreator :: "MDagPath \<Rightarrow> (MDagPath \<Rightarrow> CameraAdapter option) option"
  GetShapeAdapterCreator :: "MDagPath \<Rightarrow> (MDagPath \<Rightarrow> ShapeAdapter option) option"
  GetMaterialAdapterCreator ::
    "MObject \<Rightarrow> (SdfPath \<Rightarrow> MObject \<Rightarrow> MaterialAdapter option) option"
  getAPathTo :: "MObject \<Rightarrow> MDagPath option"
  getAllPathsTo :: "MObject \<Rightarrow> MDagPath list"
  getPath :: "MObject \<Rightarrow> MDagPath option"
  node :: "MDagPath \<Rightarrow> MObject"
  hasFn_kTransform :: "MDagPath \<Rightarrow> bool"
  children :: "MDagPath \<Rightarrow> MDagPath list"
  isInstanced :: "MDagPath \<Rightarrow> bool"
  instanceNumber :: "MDagPath \<Rightarrow> nat"
  isIntermediateObject :: "MDagPath \<Rightarrow> bool"

definition fallbackMaterial :: SdfPath where
  "fallbackMaterial = EmptyPath"

definition mayaDefaultMaterialPath :: SdfPath where
  "mayaDefaultMaterialPath = PrimPath ''/__maya_default_material__''"

section \<open>Pending-work queues\<close>

text \<open>\<^verbatim>\<open>RebuildAdapterOnIdle\<close>: linear search; the first entry of the identity gets the flags OR-ed in.\<close>

fun rebuild_enqueue :: "SdfPath \<Rightarrow> 32 word \<Rightarrow> (SdfPath \<times> 32 word) list \<Rightarrow> (SdfPath \<times> 32 word) list" where
  "rebuild_enqueue ident flags [] = [(ident, flags)]"
| "rebuild_enqueue ident flags (it # q) =
     (if fst it = ident then (fst it, snd it OR flags) # q else it # rebuild_enqueue ident flags q)"

definition RebuildAdapterOnIdle :: "SdfPath \<Rightarrow> 32 word \<Rightarrow> Delegate \<Rightarrow> Delegate" where
  "RebuildAdapterOnIdle ident flags s =
     s\<lparr>adaptersToRebuild := rebuild_enqueue ident flags (adaptersToRebuild s)\<rparr>"

text \<open>\<^verbatim>\<open>RecreateAdapterOnIdle\<close>: the first entry of the identity gets the new handle.\<close>

fun recreate_enqueue :: "SdfPath \<Rightarrow> MObject \<Rightarrow> (SdfPath \<times> MObject) list \<Rightarrow> (SdfPath \<times> MObject) list" where
  "recreate_enqueue ident obj [] = [(ident, obj)]"
| "recreate_enqueue ident obj (it # q) =
     (if fst it = ident then (fst it, obj) # q else it # recreate_enqueue ident obj q)"

definition RecreateAdapterOnIdle :: "SdfPath \<Rightarrow> MObject \<Rightarrow> Delegate \<Rightarrow> Delegate" where
  "RecreateAdapterOnIdle ident obj s =
     s\<lparr>adaptersToRecreate := recreate_enqueue ident obj (adaptersToRecreate s)\<rparr>"

definition MaterialTagChanged :: "SdfPath \<Rightarrow> Delegate \<Rightarrow> Delegate" where
  "MaterialTagChanged ident s =
     (if ident \<notin> set (materialTagsChanged s)
      then s\<lparr>materialTagsChanged := materialTagsChanged s @ [ident]\<rparr> else s)"

text \<open>
  \<^verbatim>\<open>OnDagNodeAdded\<close>: a light is queued in \<open>lightsToAdd\<close>; any other node is queued in
  \<open>addedNodes\<close>, and only when the mesh adapter is in use.
\<close>

definition OnDagNodeAdded :: "Host \<Rightarrow> MObject \<Rightarrow> Delegate \<Rightarrow> Delegate" where
  "OnDagNodeAdded h obj s =
     (if isNull obj then s
      else if IsUfeItemFromMayaUsd_obj h obj then s
      else if GetLightAdapterCreator_obj h obj then s\<lparr>lightsToAdd := lightsToAdd s @ [obj]\<rparr>
      else if useMeshAdapter h then s\<lparr>addedNodes := addedNodes s @ [obj]\<rparr>
      else s)"

text \<open>
  \<^verbatim>\<open>OnDagNodeRemoved\<close>: \<^verbatim>\<open>remove_if\<close> on \<open>lightsToAdd\<close>; \<open>addedNodes\<close> is searched only
  when nothing was found among the lights.
\<close>

definition OnDagNodeRemoved :: "Host \<Rightarrow> MObject \<Rightarrow> Delegate \<Rightarrow> Delegate" where
  "OnDagNodeRemoved h obj s =
     (if obj \<in> set (lightsToAdd s)
      then s\<lparr>lightsToAdd := filter (\<lambda>item. item \<noteq> obj) (lightsToAdd s)\<rparr>
      else if useMeshAdapter h
      then s\<lparr>addedNodes := filter (\<lambda>item. item \<noteq> obj) (addedNodes s)\<rparr>
      else s)"

section \<open>Creating and removing adapters\<close>

text \<open>
  \<^verbatim>\<open>_CreateAdapter\<close>, for the table of one adapter kind. The result is the adapter
  created (if any), the table and the calls made.
\<close>

definition priv_CreateAdapter ::
  "Host \<Rightarrow> AdapterKind \<Rightarrow> ('a \<Rightarrow> bool) \<Rightarrow> MDagPath \<Rightarrow> (MDagPath \<Rightarrow> 'a option) option
    \<Rightarrow> (SdfPath \<times> 'a) list \<Rightarrow> bool \<Rightarrow> Call list
    \<Rightarrow> 'a option \<times> (SdfPath \<times> 'a) list \<times> Call list" where
  "priv_CreateAdapter h kind IsSupported dag adapterCreator adapterMap isSprim cs =
     (case adapterCreator of
        None \<Rightarrow> (None, adapterMap, cs)
      | Some creator \<Rightarrow>
          if IsUfeItemFromMayaUsd h dag then (None, adapterMap, cs)
          else
            let ident = GetPrimPath h dag isSprim in
            if map_of adapterMap ident \<noteq> None then (None, adapterMap, cs)
            else
              (case creator dag of
                 None \<Rightarrow> (None, adapterMap, cs)
               | Some adapter \<Rightarrow>
                   if \<not> IsSupported adapter then (None, adapterMap, cs)
                   else (Some adapter, tbl_insert ident adapter adapterMap,
                         cs @ [Populate kind ident, CreateCallbacks kind ident])))"

definition CreateLightAdapter :: "Host \<Rightarrow> MDagPath \<Rightarrow> Delegate \<Rightarrow> LightAdapter option \<times> Delegate" where
  "CreateLightAdapter h dagPath s =
     (case priv_CreateAdapter h KLight la_IsSupported dagPath (GetLightAdapterCreator h dagPath)
             (lightAdapters s) True (calls s) of
        (r, m, cs) \<Rightarrow> (r, s\<lparr>lightAdapters := m, calls := cs\<rparr>))"

definition CreateCameraAdapter :: "Host \<Rightarrow> MDagPath \<Rightarrow> Delegate \<Rightarrow> CameraAdapter option \<times> Delegate" where
  "CreateCameraAdapter h dagPath s =
     (case priv_CreateAdapter h KCamera ca_IsSupported dagPath (GetCameraAdapterCreator h dagPath)
             (cameraAdapters s) True (calls s) of
        (r, m, cs) \<Rightarrow> (r, s\<lparr>cameraAdapters := m, calls := cs\<rparr>))"

text \<open>A shape is a render prim: \<^verbatim>\<open>isSprim\<close> is left at its default, false.\<close>

definition CreateShapeAdapter :: "Host \<Rightarrow> MDagPath \<Rightarrow> Delegate \<Rightarrow> ShapeAdapter option \<times> Delegate" where
  "CreateShapeAdapter h dagPath s =
     (case priv_CreateAdapter h KShape sa_IsSupported dagPath (GetShapeAdapterCreator h dagPath)
             (shapeAdapters s) False (calls s) of
        (r, m, cs) \<Rightarrow> (r, s\<lparr>shapeAdapters := m, calls := cs\<rparr>))"

definition priv_CreateMaterial :: "Host \<Rightarrow> SdfPath \<Rightarrow> MObject \<Rightarrow> Delegate \<Rightarrow> bool \<times> Delegate" where
  "priv_CreateMaterial h ident obj s =
     (case GetMaterialAdapterCreator h obj of
        None \<Rightarrow> (False, s)
      | Some materialCreator \<Rightarrow>
          (case materialCreator ident obj of
             None \<Rightarrow> (False, s)
           | Some materialAdapter \<Rightarrow>
               if \<not> ma_IsSupported materialAdapter then (False, s)
               else
                 let a = (if xRayEnabled s then materialAdapter\<lparr>ma_XRay := xRayEnabled s\<rparr>
                          else materialAdapter)
                 in (True, s\<lparr>calls := calls s @ [Populate KMaterial ident, CreateCallbacks KMaterial ident],
                            materialAdapters := tbl_insert ident a (materialAdapters s)\<rparr>)))"

definition InsertDag :: "Host \<Rightarrow> MDagPath \<Rightarrow> Delegate \<Rightarrow> Delegate" where
  "InsertDag h dag s =
     (if hasFn_kTransform h dag then s
      else if isIntermediateObject h dag then s
      else if IsUfeItemFromMayaUsd h dag then s
      else
        let (light, s1) = (if GetLightsEnabled h then CreateLightAdapter h dag s else (None, s)) in
        if light \<noteq> None then s1
        else
          let (camera, s2) = CreateCameraAdapter h dag s1 in
          if camera \<noteq> None then s2
          else if isInstanced h dag \<and> instanceNumber h dag > 0 then s2
          else
            (case CreateShapeAdapter h dag s2 of
               (None, s3) \<Rightarrow> s3
             | (Some adapter, s3) \<Rightarrow>
                 let material = sa_Material adapter in
                 if material \<noteq> kNullObj then
                   let materialId = GetMaterialPath h material in
                   if map_of (materialAdapters s3) materialId = None
                   then snd (priv_CreateMaterial h materialId material s3)
                   else s3
                 else s3))"

text \<open>
  \<^verbatim>\<open>AddNewInstance\<close>. The first of all paths to the node is the master; its adapter is
  looked up among the shapes.
\<close>

definition AddNewInstance :: "Host \<Rightarrow> MDagPath \<Rightarrow> Delegate \<Rightarrow> Delegate" where
  "AddNewInstance h dag s =
     (case getAllPathsTo h (node h dag) of
        [] \<Rightarrow> s
      | masterDag # rest \<Rightarrow>
          let ident = GetPrimPath h masterDag False in
          (case map_of (shapeAdapters s) ident of
             None \<Rightarrow> s
           | Some masterAdapter \<Rightarrow>
               if length (masterDag # rest) = 1 \<or> \<not> sa_IsInstanced masterAdapter
               then RecreateAdapterOnIdle ident (node h masterDag) s
               else
                 let s1 = RebuildAdapterOnIdle ident (RebuildFlagCallbacks h) s in
                 s1\<lparr>calls := calls s1 @
                      [MarkDirty KShape ident [DirtyInstancer, DirtyInstanceIndex, DirtyPrimvar]]\<rparr>))"

text \<open>
  \<^verbatim>\<open>RemoveAdapter\<close>: \<^verbatim>\<open>_RemoveAdapter\<close> over the render items, the shapes, the lights
  and the materials, in this order; the first table that holds the identity loses it.
\<close>

definition RemoveAdapter :: "SdfPath \<Rightarrow> Delegate \<Rightarrow> Delegate" where
  "RemoveAdapter ident s =
     (if map_of (renderItemsAdapters s) ident \<noteq> None then
        s\<lparr>calls := calls s @ [RemoveCallbacks KRenderItem ident, RemovePrim KRenderItem ident],
          renderItemsAdapters := tbl_erase ident (renderItemsAdapters s)\<rparr>
      else if map_of (shapeAdapters s) ident \<noteq> None then
        s\<lparr>calls := calls s @ [RemoveCallbacks KShape ident, RemovePrim KShape ident],
          shapeAdapters := tbl_erase ident (shapeAdapters s)\<rparr>
      else if map_of (lightAdapters s) ident \<noteq> None then
        s\<lparr>calls := calls s @ [RemoveCallbacks KLight ident, RemovePrim KLight ident],
          lightAdapters := tbl_erase ident (lightAdapters s)\<rparr>
      else if map_of (materialAdapters s) ident \<noteq> None then
        s\<lparr>calls := calls s @ [RemoveCallbacks KMaterial ident, RemovePrim KMaterial ident],
          materialAdapters := tbl_erase ident (materialAdapters s)\<rparr>
      else s\<lparr>calls := calls s @ [TfWarn ident]\<rparr>)"

text \<open>
  \<^verbatim>\<open>RecreateAdapter\<close>: a light is removed and its node queued again; a shape (with the
  mesh adapter) is removed and inserted again; a material is removed, the render prims
  bound to it are marked dirty, and it is created again.
\<close>

definition RecreateAdapter :: "Host \<Rightarrow> SdfPath \<Rightarrow> MObject \<Rightarrow> Delegate \<Rightarrow> Delegate" where
  "RecreateAdapter h ident obj s =
     (if map_of (lightAdapters s) ident \<noteq> None then
        let s1 = s\<lparr>calls := calls s @ [RemoveCallbacks KLight ident, RemovePrim KLight ident],
                   lightAdapters := tbl_erase ident (lightAdapters s)\<rparr>
        in if isValid h obj then OnDagNodeAdded h obj s1 else s1
      else if useMeshAdapter h \<and> map_of (shapeAdapters s) ident \<noteq> None then
        let s1 = s\<lparr>calls := calls s @ [RemoveCallbacks KShape ident, RemovePrim KShape ident],
                   shapeAdapters := tbl_erase ident (shapeAdapters s)\<rparr>
        in (case getPath h obj of
              Some path \<Rightarrow> if isValid h obj then InsertDag h path s1 else s1
            | None \<Rightarrow> s1)
      else if map_of (materialAdapters s) ident \<noteq> None then
        let s1 = s\<lparr>calls := calls s @ [RemoveCallbacks KMaterial ident, RemovePrim KMaterial ident],
                   materialAdapters := tbl_erase ident (materialAdapters s)\<rparr>;
            s2 = s1\<lparr>calls := calls s1 @
                      map (\<lambda>rprim. MarkRprimDirty (fst rprim) [DirtyMaterialId])
                        (filter (\<lambda>rprim. snd rprim = ident) (rprims s1))\<rparr>
        in if isValid h obj then snd (priv_CreateMaterial h (GetMaterialPath h obj) obj s2) else s2
      else s\<lparr>calls := calls s @ [TfWarn ident]\<rparr>)"

subsection \<open>Render items\<close>

definition priv_AddRenderItem :: "RenderItemAdapter \<Rightarrow> Delegate \<Rightarrow> Delegate" where
  "priv_AddRenderItem ria s =
     s\<lparr>renderItemsAdaptersFast := tbl_insert (ria_FastID ria) ria (renderItemsAdaptersFast s),
       renderItemsAdapters := tbl_insert (ria_ID ria) ria (renderItemsAdapters s)\<rparr>"

definition priv_RemoveRenderItem :: "RenderItemAdapter \<Rightarrow> Delegate \<Rightarrow> Delegate" where
  "priv_RemoveRenderItem ria s =
     s\<lparr>renderItemsAdaptersFast := tbl_erase (ria_FastID ria) (renderItemsAdaptersFast s),
       renderItemsAdapters := tbl_erase (ria_ID ria) (renderItemsAdapters s)\<rparr>"

definition priv_GetRenderItem :: "int \<Rightarrow> Delegate \<Rightarrow> RenderItemAdapter option" where
  "priv_GetRenderItem fastId s = map_of (renderItemsAdaptersFast s) fastId"

section \<open>Pull queries\<close>

text \<open>
  The lookup helpers are given the tables as lookups into the common adapter type, in the
  order of the call. \<^verbatim>\<open>_GetValue\<close> answers with \<open>f\<close> of the first adapter found and
  with \<open>dflt\<close>, the value-initialised result \<^verbatim>\<open>R{}\<close>, when no table holds the identity.
  \<^verbatim>\<open>_FindAdapter\<close> gives the adapter its action is applied to.
\<close>

datatype Adapter =
  ARenderItem RenderItemAdapter | AShape ShapeAdapter | ALight LightAdapter
  | ACamera CameraAdapter | AMaterial MaterialAdapter

fun kind_of :: "Adapter \<Rightarrow> AdapterKind" where
  "kind_of (ARenderItem a) = KRenderItem"
| "kind_of (AShape a) = KShape"
| "kind_of (ALight a) = KLight"
| "kind_of (ACamera a) = KCamera"
| "kind_of (AMaterial a) = KMaterial"

definition as_adapters :: "('v \<Rightarrow> Adapter) \<Rightarrow> (SdfPath \<times> 'v) list \<Rightarrow> SdfPath \<Rightarrow> Adapter option" where
  "as_adapters c t ident = map_option c (map_of t ident)"


fun priv_FindAdapter :: "SdfPath \<Rightarrow> (SdfPath \<Rightarrow> Adapter option) list \<Rightarrow> Adapter option" where
  "priv_FindAdapter ident [] = None"
| "priv_FindAdapter ident (m0 # m) =
     (case m0 ident of None \<Rightarrow> priv_FindAdapter ident m | Some adapter \<Rightarrow> Some adapter)"




















subsection \<open>Material id\<close>

text \<open>
  \<^verbatim>\<open>GetMaterialId\<close>. The block on the render item either returns (\<open>Some\<close>) or falls
  through to the shape adapters (\<open>None\<close>). The delegate is returned as well: a material
  adapter may be created on the way.
\<close>

definition GetMaterialId_renderItem :: "Host \<Rightarrow> SdfPath \<Rightarrow> Delegate \<Rightarrow> SdfPath option" where
  "GetMaterialId_renderItem h ident s =
     (case map_of (renderItemsAdapters s) ident of
        None \<Rightarrow> None
      | Some renderItemAdapter \<Rightarrow>
          if ria_Primitive renderItemAdapter = kLines \<or> ria_Primitive renderItemAdapter = kLineStrip
          then Some fallbackMaterial
          else
            let material = ria_Material renderItemAdapter in
            if material = kInvalidMaterial h then Some fallbackMaterial
            else if map_of (materialAdapters s) material \<noteq> None then Some material
            else None)"

definition GetMaterialId :: "Host \<Rightarrow> SdfPath \<Rightarrow> Delegate \<Rightarrow> SdfPath \<times> Delegate" where
  "GetMaterialId h ident s =
     (if useDefaultMaterial s then (mayaDefaultMaterialPath, s)
      else
        (case GetMaterialId_renderItem h ident s of
           Some r \<Rightarrow> (r, s)
         | None \<Rightarrow>
             if useMeshAdapter h then
               (case map_of (shapeAdapters s) ident of
                  None \<Rightarrow> (fallbackMaterial, s)
                | Some shapeAdapter \<Rightarrow>
                    let material = sa_Material shapeAdapter in
                    if material = kNullObj then (fallbackMaterial, s)
                    else
                      let materialId = GetMaterialPath h material in
                      if map_of (materialAdapters s) materialId \<noteq> None then (materialId, s)
                      else
                        (case priv_CreateMaterial h materialId material s of
                           (True, s') \<Rightarrow> (materialId, s')
                         | (False, s') \<Rightarrow> (fallbackMaterial, s')))
             else (fallbackMaterial, s)))"

section \<open>The per-frame synchronization pass\<close>

text \<open>
  What \<^verbatim>\<open>PreFrame\<close> reads of the draw context: the two display-style bits, the status
  and number of the active lights, and per light (null where
  \<^verbatim>\<open>getLightParameterInformation\<close> gives none) its path, whether the path is valid, the
  \<^verbatim>\<open>kShadowOn\<close> values and the \<^verbatim>\<open>kShadowViewProj\<close> matrix (already converted by
  \<^verbatim>\<open>GetGfMatrixFromMaya\<close>), each \<open>None\<close> where \<^verbatim>\<open>getParameter\<close> fails.
\<close>

record MLightParameterInformation =
  lightPath :: MDagPath
  lightPath_isValid :: bool
  kShadowOn :: "int list option"
  kShadowViewProj :: "GfMatrix4d option"

record MDrawContext =
  kDefaultMaterial :: bool
  kXray :: bool
  numberOfActiveLights_status :: bool
  getLightParameterInformation :: "MLightParameterInformation option list"

text \<open>A step of the pass either goes on to the next step or returns from \<^verbatim>\<open>PreFrame\<close>.\<close>

datatype 'a Flow = Continues 'a | Returned 'a

definition tbl_update :: "'k \<Rightarrow> ('v \<Rightarrow> 'v) \<Rightarrow> ('k \<times> 'v) list \<Rightarrow> ('k \<times> 'v) list" where
  "tbl_update k f t = map (\<lambda>e. if fst e = k then (fst e, f (snd e)) else e) t"

subsection \<open>Display style\<close>

definition PreFrame_displayStyle :: "Host \<Rightarrow> MDrawContext \<Rightarrow> Delegate \<Rightarrow> Delegate" where
  "PreFrame_displayStyle h context s =
     (let s1 =
        (if kDefaultMaterial context \<noteq> useDefaultMaterial s then
           let s' = s\<lparr>useDefaultMaterial := kDefaultMaterial context\<rparr> in
           if useMeshAdapter h
           then s'\<lparr>calls := calls s' @
                    map (\<lambda>shape. MarkDirty KShape (fst shape) [DirtyMaterialId]) (shapeAdapters s')\<rparr>
           else s'
         else s)
      in
        if kXray context \<noteq> xRayEnabled s1 then
          s1\<lparr>xRayEnabled := kXray context,
             materialAdapters :=
               map (\<lambda>matAdapter. (fst matAdapter, (snd matAdapter)\<lparr>ma_XRay := kXray context\<rparr>))
                 (materialAdapters s1)\<rparr>
        else s1)"

subsection \<open>Material tags\<close>

definition UpdateMaterialTag :: "MaterialAdapter \<Rightarrow> bool \<times> MaterialAdapter" where
  "UpdateMaterialTag a = (ma_TagStale a, a\<lparr>ma_TagStale := False\<rparr>)"

text \<open>The inner loop: every render prim bound to the material is queued for a prim rebuild.\<close>

fun rebuild_rprims :: "Host \<Rightarrow> SdfPath \<Rightarrow> (SdfPath \<times> SdfPath) list \<Rightarrow> Delegate \<Rightarrow> Delegate" where
  "rebuild_rprims h ident [] s = s"
| "rebuild_rprims h ident (rprim # rest) s =
     rebuild_rprims h ident rest
       (if snd rprim = ident then RebuildAdapterOnIdle (fst rprim) (RebuildFlagPrim h) s else s)"

fun materialTags_loop :: "Host \<Rightarrow> SdfPath list \<Rightarrow> Delegate \<Rightarrow> Delegate" where
  "materialTags_loop h [] s = s"
| "materialTags_loop h (ident # rest) s =
     materialTags_loop h rest
       (case map_of (materialAdapters s) ident of
          None \<Rightarrow> s
        | Some a \<Rightarrow>
            let s1 = s\<lparr>materialAdapters :=
                        tbl_update ident (\<lambda>a. snd (UpdateMaterialTag a)) (materialAdapters s)\<rparr>
            in if fst (UpdateMaterialTag a) then rebuild_rprims h ident (rprims s1) s1 else s1)"

definition PreFrame_materialTags :: "Host \<Rightarrow> Delegate \<Rightarrow> Delegate" where
  "PreFrame_materialTags h s =
     (if materialTagsChanged s \<noteq> [] then
        (let s1 = (if IsHdSt h then materialTags_loop h (materialTagsChanged s) s else s)
         in s1\<lparr>materialTagsChanged := []\<rparr>)
      else s)"

subsection \<open>Queued lights and nodes\<close>

fun lightsToAdd_loop :: "Host \<Rightarrow> MObject list \<Rightarrow> Delegate \<Rightarrow> Delegate Flow" where
  "lightsToAdd_loop h [] s = Continues s"
| "lightsToAdd_loop h (lightToAdd # rest) s =
     (case getAPathTo h lightToAdd of
        None \<Rightarrow> Returned s
      | Some dag \<Rightarrow> lightsToAdd_loop h rest (snd (CreateLightAdapter h dag s)))"

definition PreFrame_lightsToAdd :: "Host \<Rightarrow> Delegate \<Rightarrow> Delegate Flow" where
  "PreFrame_lightsToAdd h s =
     (if lightsToAdd s \<noteq> [] then
        (case lightsToAdd_loop h (lightsToAdd s) s of
           Returned r \<Rightarrow> Returned r
         | Continues s1 \<Rightarrow> Continues (s1\<lparr>lightsToAdd := []\<rparr>))
      else Continues s)"

text \<open>\<open>children h dag\<close> are the paths \<^verbatim>\<open>dagCopy\<close>: \<open>dag\<close> extended by each of its children.\<close>

fun children_loop :: "Host \<Rightarrow> MDagPath list \<Rightarrow> Delegate \<Rightarrow> Delegate" where
  "children_loop h [] s = s"
| "children_loop h (dagCopy # rest) s =
     children_loop h rest
       (if isInstanced h dagCopy \<and> instanceNumber h dagCopy > 0 then AddNewInstance h dagCopy s
        else s)"

fun addedNodes_loop :: "Host \<Rightarrow> MObject list \<Rightarrow> Delegate \<Rightarrow> Delegate Flow" where
  "addedNodes_loop h [] s = Continues s"
| "addedNodes_loop h (obj # rest) s =
     (if isNull obj then addedNodes_loop h rest s
      else
        (case getAPathTo h obj of
           None \<Rightarrow> Returned s
         | Some dag \<Rightarrow>
             addedNodes_loop h rest
               (if hasFn_kTransform h dag then children_loop h (children h dag) s
                else InsertDag h dag s)))"

definition PreFrame_addedNodes :: "Host \<Rightarrow> Delegate \<Rightarrow> Delegate Flow" where
  "PreFrame_addedNodes h s =
     (if useMeshAdapter h \<and> addedNodes s \<noteq> [] then
        (case addedNodes_loop h (addedNodes s) s of
           Returned r \<Rightarrow> Returned r
         | Continues s1 \<Rightarrow> Continues (s1\<lparr>addedNodes := []\<rparr>))
      else Continues s)"

subsection \<open>Recreate and rebuild\<close>

text \<open>The inner search of the recreate loop: the first rebuild entry of the identity is erased.\<close>

fun erase_rebuild :: "SdfPath \<Rightarrow> (SdfPath \<times> 32 word) list \<Rightarrow> (SdfPath \<times> 32 word) list" where
  "erase_rebuild ident [] = []"
| "erase_rebuild ident (itr # q) = (if ident = fst itr then q else itr # erase_rebuild ident q)"

fun recreate_loop :: "Host \<Rightarrow> (SdfPath \<times> MObject) list \<Rightarrow> Delegate \<Rightarrow> Delegate" where
  "recreate_loop h [] s = s"
| "recreate_loop h (it # rest) s =
     recreate_loop h rest
       (let s1 = RecreateAdapter h (fst it) (snd it) s
        in s1\<lparr>adaptersToRebuild := erase_rebuild (fst it) (adaptersToRebuild s1)\<rparr>)"

definition PreFrame_recreate :: "Host \<Rightarrow> Delegate \<Rightarrow> Delegate" where
  "PreFrame_recreate h s =
     (if adaptersToRecreate s \<noteq> [] then
        (recreate_loop h (adaptersToRecreate s) s)\<lparr>adaptersToRecreate := []\<rparr>
      else s)"

text \<open>
  The action of the rebuild loop on the adapter found among the shapes, the lights and
  the materials.
\<close>

definition rebuild_calls :: "Host \<Rightarrow> SdfPath \<times> 32 word \<Rightarrow> Delegate \<Rightarrow> Call list" where
  "rebuild_calls h it s =
     (case priv_FindAdapter (fst it)
             [as_adapters AShape (shapeAdapters s), as_adapters ALight (lightAdapters s),
              as_adapters AMaterial (materialAdapters s)] of
        None \<Rightarrow> []
      | Some a \<Rightarrow>
          (if snd it AND RebuildFlagCallbacks h \<noteq> 0
           then [RemoveCallbacks (kind_of a) (fst it), CreateCallbacks (kind_of a) (fst it)] else [])
          @ (if snd it AND RebuildFlagPrim h \<noteq> 0
             then [RemovePrim (kind_of a) (fst it), Populate (kind_of a) (fst it)] else []))"

fun rebuild_loop :: "Host \<Rightarrow> (SdfPath \<times> 32 word) list \<Rightarrow> Delegate \<Rightarrow> Delegate" where
  "rebuild_loop h [] s = s"
| "rebuild_loop h (it # rest) s =
     rebuild_loop h rest (s\<lparr>calls := calls s @ rebuild_calls h it s\<rparr>)"

definition PreFrame_rebuild :: "Host \<Rightarrow> Delegate \<Rightarrow> Delegate" where
  "PreFrame_rebuild h s =
     (if adaptersToRebuild s \<noteq> [] then
        (rebuild_loop h (adaptersToRebuild s) s)\<lparr>adaptersToRebuild := []\<rparr>
      else s)"

subsection \<open>Lights\<close>

text \<open>\<^verbatim>\<open>_GetActiveLightPaths\<close>: the snapshot starts with the path of every light adapter.\<close>

definition priv_GetActiveLightPaths :: "Delegate \<Rightarrow> (string \<times> MDagPath) list" where
  "priv_GetActiveLightPaths s =
     foldl (\<lambda>activeLightPaths entry.
              tbl_insert (fullPathName (la_DagPath (snd entry))) (la_DagPath (snd entry))
                activeLightPaths)
       [] (lightAdapters s)"

text \<open>
  The loop over the lights of the draw context: a light not yet in the snapshot is added
  to it; a light that casts shadows hands its projection matrix to its adapter.
\<close>

fun activeLights_loop ::
  "Host \<Rightarrow> MLightParameterInformation option list \<Rightarrow> (string \<times> MDagPath) list
    \<Rightarrow> (SdfPath \<times> LightAdapter) list
    \<Rightarrow> (string \<times> MDagPath) list \<times> (SdfPath \<times> LightAdapter) list" where
  "activeLights_loop h [] activeLightPaths las = (activeLightPaths, las)"
| "activeLights_loop h (None # rest) activeLightPaths las =
     activeLights_loop h rest activeLightPaths las"
| "activeLights_loop h (Some lightParam # rest) activeLightPaths las =
     (if \<not> lightPath_isValid lightParam then activeLights_loop h rest activeLightPaths las
      else if IsUfeItemFromMayaUsd h (lightPath lightParam)
      then activeLights_loop h rest activeLightPaths las
      else
        let activeLightPaths' =
              tbl_insert (fullPathName (lightPath lightParam)) (lightPath lightParam) activeLightPaths
        in
          if (case kShadowOn lightParam of
                None \<Rightarrow> True
              | Some [] \<Rightarrow> True
              | Some (v # vs) \<Rightarrow> v \<noteq> 1)
          then activeLights_loop h rest activeLightPaths' las
          else
            (case kShadowViewProj lightParam of
               None \<Rightarrow> activeLights_loop h rest activeLightPaths' las
             | Some matrixVal \<Rightarrow>
                 activeLights_loop h rest activeLightPaths'
                   (tbl_update (GetPrimPath h (lightPath lightParam) True)
                      (\<lambda>a. a\<lparr>la_ShadowProjectionMatrix := Some matrixVal\<rparr>) las)))"

text \<open>
  The sweep over the light adapters: an adapter whose path is in the snapshot is turned on
  and its path erased from the snapshot; any other adapter is turned off.
\<close>

fun lights_sweep ::
  "(SdfPath \<times> LightAdapter) list \<Rightarrow> (string \<times> MDagPath) list
    \<Rightarrow> (SdfPath \<times> LightAdapter) list \<times> (string \<times> MDagPath) list" where
  "lights_sweep [] activeLightPaths = ([], activeLightPaths)"
| "lights_sweep (e # rest) activeLightPaths =
     (if map_of activeLightPaths (fullPathName (la_DagPath (snd e))) \<noteq> None then
        (case lights_sweep rest (tbl_erase (fullPathName (la_DagPath (snd e))) activeLightPaths) of
           (rest', activeLightPaths') \<Rightarrow>
             ((fst e, (snd e)\<lparr>la_LightingOn := True\<rparr>) # rest', activeLightPaths'))
      else
        (case lights_sweep rest activeLightPaths of
           (rest', activeLightPaths') \<Rightarrow>
             ((fst e, (snd e)\<lparr>la_LightingOn := False\<rparr>) # rest', activeLightPaths')))"

fun create_lights :: "Host \<Rightarrow> (string \<times> MDagPath) list \<Rightarrow> Delegate \<Rightarrow> Delegate" where
  "create_lights h [] s = s"
| "create_lights h (entry # rest) s = create_lights h rest (snd (CreateLightAdapter h (snd entry) s))"

definition PreFrame_lights :: "Host \<Rightarrow> MDrawContext \<Rightarrow> Delegate \<Rightarrow> Delegate" where
  "PreFrame_lights h context s =
     (let activeLightPaths = priv_GetActiveLightPaths s;
          numLights = length (getLightParameterInformation context)
      in
        if (\<not> numberOfActiveLights_status context \<or> numLights = 0) \<and> length activeLightPaths = 0
        then s\<lparr>lightAdapters :=
                 map (\<lambda>e. (fst e, (snd e)\<lparr>la_LightingOn := False\<rparr>)) (lightAdapters s)\<rparr>
        else
          (case activeLights_loop h (getLightParameterInformation context) activeLightPaths
                  (lightAdapters s) of
             (activeLightPaths1, las1) \<Rightarrow>
               (case lights_sweep las1 activeLightPaths1 of
                  (las2, activeLightPaths2) \<Rightarrow>
                    create_lights h activeLightPaths2 (s\<lparr>lightAdapters := las2\<rparr>))))"

subsection \<open>The pass\<close>

definition PreFrame :: "Host \<Rightarrow> MDrawContext \<Rightarrow> Delegate \<Rightarrow> Delegate" where
  "PreFrame h context s =
     (let s2 = PreFrame_materialTags h (PreFrame_displayStyle h context s) in
      case PreFrame_lightsToAdd h s2 of
        Returned r \<Rightarrow> r
      | Continues s3 \<Rightarrow>
          (case PreFrame_addedNodes h s3 of
             Returned r \<Rightarrow> r
           | Continues s4 \<Rightarrow>
               let s6 = PreFrame_rebuild h (PreFrame_recreate h s4) in
               if \<not> IsHdSt h then s6 else PreFrame_lights h context s6))"

section \<open>Well-formed queues and tables\<close>

text \<open>
  What \<^verbatim>\<open>OnDagNodeAdded\<close>, the only writer of the two node queues, keeps true of them:
  a queued light has a light creator; any other queued node has none, and is queued only
  when the mesh adapter is in use.
\<close>

definition queues_wf :: "Host \<Rightarrow> Delegate \<Rightarrow> bool" where
  "queues_wf h s =
     (list_all (\<lambda>obj. GetLightAdapterCreator_obj h obj) (lightsToAdd s)
      \<and> list_all (\<lambda>obj. \<not> GetLightAdapterCreator_obj h obj \<and> useMeshAdapter h) (addedNodes s))"


text \<open>The state a step of the pass ends in, whether it goes on or returns.\<close>

fun flow_state :: "'a Flow \<Rightarrow> 'a" where
  "flow_state (Continues s) = s"
| "flow_state (Returned s) = s"

text \<open>A rebuild is pending for an identity, with all bits of \<open>flag\<close> set.\<close>

definition rebuild_pending :: "32 word \<Rightarrow> (SdfPath \<times> 32 word) list \<Rightarrow> SdfPath \<Rightarrow> bool" where
  "rebuild_pending flag q ident =
     (case map_of q ident of None \<Rightarrow> False | Some fl \<Rightarrow> fl AND flag = flag)"

text \<open>
  What \<^verbatim>\<open>_CreateAdapter\<close> keeps true of the light table: the keys are distinct, and every
  light adapter is stored under the prim path of its own DAG path.
\<close>

definition lights_wf :: "Host \<Rightarrow> Delegate \<Rightarrow> bool" where
  "lights_wf h s =
     (distinct (map fst (lightAdapters s))
      \<and> list_all (\<lambda>e. fst e = GetPrimPath h (la_DagPath (snd e)) True) (lightAdapters s))"

text \<open>
  The two render-item tables agree: every adapter of the fast table is stored under its
  own fast key and is the adapter the path-keyed table has for its path, and the other way
  round.
\<close>

definition renderItems_consistent :: "Delegate \<Rightarrow> bool" where
  "renderItems_consistent s =
     (list_all (\<lambda>e. ria_FastID (snd e) = fst e
                  \<and> map_of (renderItemsAdapters s) (ria_ID (snd e)) = Some (snd e))
        (renderItemsAdaptersFast s)
      \<and> list_all (\<lambda>e. ria_ID (snd e) = fst e
                  \<and> map_of (renderItemsAdaptersFast s) (ria_FastID (snd e)) = Some (snd e))
          (renderItemsAdapters s))"

section \<open>Example inputs\<close>

definition emptyDelegate :: Delegate where
  "emptyDelegate =
     \<lparr>renderItemsAdaptersFast = [], renderItemsAdapters = [], shapeAdapters = [],
      lightAdapters = [], cameraAdapters = [], materialAdapters = [], lightsToAdd = [],
      addedNodes = [], adaptersToRecreate = [], adaptersToRebuild = [],
      materialTagsChanged = [], useDefaultMaterial = False, xRayEnabled = False,
      rprims = [], calls = []\<rparr>"

text \<open>
  A small scene: two lights (nodes 1 and 2), a mesh (node 3) with two instance paths
  and the material of node 7, and a light node 9 that no path leads to any more.
\<close>

definition exLight :: "MDagPath \<Rightarrow> LightAdapter" where
  "exLight dag =
     \<lparr>la_DagPath = dag, la_IsSupported = True, la_LightingOn = True,
      la_ShadowProjectionMatrix = None\<rparr>"

definition exShape :: "MDagPath \<Rightarrow> ShapeAdapter" where
  "exShape dag =
     \<lparr>sa_DagPath = dag, sa_IsSupported = True, sa_Material = Node 7, sa_IsInstanced = False\<rparr>"

definition exMaterial :: MaterialAdapter where
  "exMaterial = \<lparr>ma_IsSupported = True, ma_XRay = False, ma_TagStale = False\<rparr>"

definition exHost :: Host where
  "exHost =
     \<lparr>useMeshAdapter = True, IsHdSt = True, GetLightsEnabled = True,
      RebuildFlagPrim = 2, RebuildFlagCallbacks = 4,
      kInvalidMaterial = PrimPath ''InvalidMaterial'',
      GetPrimPath = (\<lambda>dag isSprim. PrimPath ((if isSprim then ''/sprims'' else ''/rprims'') @ dag)),
      GetMaterialPath = (\<lambda>obj. if obj = Node 7 then PrimPath ''/materials/m7''
                               else PrimPath ''/materials/other''),
      isValid = (\<lambda>obj. obj \<noteq> kNullObj),
      IsUfeItemFromMayaUsd_obj = (\<lambda>obj. False),
      IsUfeItemFromMayaUsd = (\<lambda>dag. False),
      GetLightAdapterCreator_obj = (\<lambda>obj. obj = Node 1 \<or> obj = Node 2 \<or> obj = Node 9),
      GetLightAdapterCreator =
        (\<lambda>dag. if dag = ''|light1'' \<or> dag = ''|light2'' then Some (\<lambda>d. Some (exLight d))
                else None),
      GetCameraAdapterCreator = (\<lambda>dag. None),
      GetShapeAdapterCreator =
        (\<lambda>dag. if dag = ''|mesh3'' then Some (\<lambda>d. Some (exShape d)) else None),
      GetMaterialAdapterCreator =
        (\<lambda>obj. if obj = Node 7 then Some (\<lambda>i ob. Some exMaterial) else None),
      getAPathTo =
        (\<lambda>obj. if obj = Node 1 then Some ''|light1'' else if obj = Node 2 then Some ''|light2''
                else if obj = Node 3 then Some ''|mesh3'' else None),
      getAllPathsTo =
        (\<lambda>obj. if obj = Node 1 then [''|light1''] else if obj = Node 2 then [''|light2'']
                else if obj = Node 3 then [''|mesh3'', ''|mesh3b''] else []),
      getPath =
        (\<lambda>obj. if obj = Node 1 then Some ''|light1'' else if obj = Node 2 then Some ''|light2''
                else if obj = Node 3 then Some ''|mesh3'' else None),
      node =
        (\<lambda>dag. if dag = ''|light1'' then Node 1 else if dag = ''|light2'' then Node 2
                else if dag = ''|mesh3'' \<or> dag = ''|mesh3b'' then Node 3 else kNullObj),
      hasFn_kTransform = (\<lambda>dag. False),
      children = (\<lambda>dag. []),
      isInstanced = (\<lambda>dag. dag = ''|mesh3'' \<or> dag = ''|mesh3b''),
      instanceNumber = (\<lambda>dag. if dag = ''|mesh3b'' then 1 else 0),
      isIntermediateObject = (\<lambda>dag. False)\<rparr>"

definition exContext :: MDrawContext where
  "exContext =
     \<lparr>kDefaultMaterial = False, kXray = False, numberOfActiveLights_status = True,
      getLightParameterInformation = []\<rparr>"

text \<open>A render item with the fast key 1, in both render-item tables.\<close>

definition exRenderItem :: RenderItemAdapter where
  "exRenderItem =
     \<lparr>ria_ID = PrimPath ''/rprims/item1'', ria_FastID = 1, ria_Primitive = kTriangles,
      ria_Material = PrimPath ''InvalidMaterial''\<rparr>"

definition exWithRenderItem :: Delegate where
  "exWithRenderItem = priv_AddRenderItem exRenderItem emptyDelegate"

text \<open>
  A delegate with the adapter of light 2, a recreate and a rebuild pending for it, and
  two queued lights, the first of which (node 9) has no path any more.
\<close>

definition exStalled :: Delegate where
  "exStalled =
     emptyDelegate
       \<lparr>lightAdapters := [(PrimPath ''/sprims|light2'', exLight ''|light2'')],
        lightsToAdd := [Node 9, Node 1],
        adaptersToRecreate := [(PrimPath ''/sprims|light2'', Node 2)],
        adaptersToRebuild := [(PrimPath ''/sprims|light2'', 2)]\<rparr>"

text \<open>The delegate after the mesh (node 3) got its shape adapter; its material is not registered yet.\<close>

definition exWithShape :: Delegate where
  "exWithShape = emptyDelegate\<lparr>shapeAdapters := [(PrimPath ''/rprims|mesh3'', exShape ''|mesh3'')]\<rparr>"

text \<open>
  Material \<open>/materials/m7\<close> has a stale tag and is bound to two render prims; its tag
  change is queued.
\<close>

definition exTagChanged :: Delegate where
  "exTagChanged =
     emptyDelegate
       \<lparr>materialAdapters := [(PrimPath ''/materials/m7'', exMaterial\<lparr>ma_TagStale := True\<rparr>)],
        rprims := [(PrimPath ''/rprims|A'', PrimPath ''/materials/m7''),
                   (PrimPath ''/rprims|B'', PrimPath ''/materials/m7'')],
        materialTagsChanged := [PrimPath ''/materials/m7'']\<rparr>"

text \<open>The delegate with the adapter of light 1, turned off, and nothing pending.\<close>

definition exOneLight :: Delegate where
  "exOneLight =
     emptyDelegate
       \<lparr>lightAdapters := [(PrimPath ''/sprims|light1'', (exLight ''|light1'')\<lparr>la_LightingOn := False\<rparr>)]\<rparr>"

section \<open>Properties\<close>

subsection \<open>The rebuild and recreate queues\<close>

lemma rebuild_enqueue_fresh:
  "ident \<notin> fst ` set q \<Longrightarrow> rebuild_enqueue ident flags q = q @ [(ident, flags)]"
  by (induction q) auto

lemma rebuild_enqueue_last:
  "ident \<notin> fst ` set q \<Longrightarrow> rebuild_enqueue ident B (q @ [(ident, A)]) = q @ [(ident, A OR B)]"
  by (induction q) auto

lemma rebuild_enqueue_keys:
  "fst ` set (rebuild_enqueue ident flags q) = insert ident (fst ` set q)"
  by (induction q) auto

lemma rebuild_enqueue_distinct:
  "distinct (map fst q) \<Longrightarrow> distinct (map fst (rebuild_enqueue ident flags q))"
proof (induction q)
  case Nil
  then show ?case by simp
next
  case (Cons it q)
  have "fst ` set (rebuild_enqueue ident flags q) = insert ident (fst ` set q)"
    by (rule rebuild_enqueue_keys)
  with Cons show ?case by auto
qed

lemma rebuild_enqueue_map_of:
  "map_of (rebuild_enqueue ident flags q) ident =
     Some ((case map_of q ident of None \<Rightarrow> 0 | Some f \<Rightarrow> f) OR flags)"
  by (induction q) auto

lemma rebuild_enqueue_map_of_other:
  "k \<noteq> ident \<Longrightarrow> map_of (rebuild_enqueue ident flags q) k = map_of q k"
  by (induction q) auto

lemma recreate_enqueue_map_of:
  "map_of (recreate_enqueue ident obj q) ident = Some obj"
  by (induction q) auto

text \<open>
  Claim C4. Let no rebuild be pending for an identity. After
  \<^verbatim>\<open>RebuildAdapterOnIdle(id, A)\<close> and then \<^verbatim>\<open>RebuildAdapterOnIdle(id, B)\<close> the queue
  is the old queue followed by one entry for the identity, with the flags \<open>A OR B\<close>: the
  identity has exactly one entry, and no second one was made.
\<close>

theorem RebuildAdapterOnIdle_twice:
  assumes "ident \<notin> fst ` set (adaptersToRebuild s)"
  shows "adaptersToRebuild (RebuildAdapterOnIdle ident B (RebuildAdapterOnIdle ident A s))
           = adaptersToRebuild s @ [(ident, A OR B)]
         \<and> filter (\<lambda>it. fst it = ident)
             (adaptersToRebuild (RebuildAdapterOnIdle ident B (RebuildAdapterOnIdle ident A s)))
           = [(ident, A OR B)]"
proof -
  have q: "adaptersToRebuild (RebuildAdapterOnIdle ident B (RebuildAdapterOnIdle ident A s))
           = adaptersToRebuild s @ [(ident, A OR B)]"
    using assms by (simp add: RebuildAdapterOnIdle_def rebuild_enqueue_fresh rebuild_enqueue_last)
  have "filter (\<lambda>it. fst it = ident) (adaptersToRebuild s) = []"
    using assms by (auto simp: filter_empty_conv)
  with q show ?thesis by simp
qed

theorem RebuildAdapterOnIdle_twice_witness:
  "PrimPath ''/a'' \<notin> fst ` set (adaptersToRebuild (emptyDelegate\<lparr>adaptersToRebuild := [(PrimPath ''/b'', 2)]\<rparr>))
   \<and> adaptersToRebuild
       (RebuildAdapterOnIdle (PrimPath ''/a'') 4 (RebuildAdapterOnIdle (PrimPath ''/a'') 2
          (emptyDelegate\<lparr>adaptersToRebuild := [(PrimPath ''/b'', 2)]\<rparr>)))
     = [(PrimPath ''/b'', 2), (PrimPath ''/a'', 6)]"
  using RebuildAdapterOnIdle_twice
    [where ident = "PrimPath ''/a''" and A = 2 and B = 4
       and s = "emptyDelegate\<lparr>adaptersToRebuild := [(PrimPath ''/b'', 2)]\<rparr>"]
  by (simp add: emptyDelegate_def)

subsection \<open>Instancing\<close>

text \<open>
  Claim C9. Let \<^verbatim>\<open>AddNewInstance\<close> run for a shape whose master adapter exists. If the
  shape has one instance path only, or the adapter is not marked instanced, the identity
  is queued for recreation with the master's node, and nothing else changes. Otherwise
  the recreate queue is as before, the identity's rebuild entry gets the callbacks flag
  (on top of what was pending), and the one call made is \<^verbatim>\<open>MarkDirty\<close> for instancer,
  instance index and primvar.
\<close>

theorem AddNewInstance_cases:
  assumes "getAllPathsTo h (node h dag) = masterDag # rest"
    and "map_of (shapeAdapters s) (GetPrimPath h masterDag False) = Some masterAdapter"
  shows "(if rest = [] \<or> \<not> sa_IsInstanced masterAdapter then
            map_of (adaptersToRecreate (AddNewInstance h dag s)) (GetPrimPath h masterDag False)
              = Some (node h masterDag)
            \<and> AddNewInstance h dag s
              = s\<lparr>adaptersToRecreate := adaptersToRecreate (AddNewInstance h dag s)\<rparr>
          else
            adaptersToRecreate (AddNewInstance h dag s) = adaptersToRecreate s
            \<and> map_of (adaptersToRebuild (AddNewInstance h dag s)) (GetPrimPath h masterDag False)
              = Some ((case map_of (adaptersToRebuild s) (GetPrimPath h masterDag False) of
                         None \<Rightarrow> 0 | Some f \<Rightarrow> f) OR RebuildFlagCallbacks h)
            \<and> calls (AddNewInstance h dag s)
              = calls s @ [MarkDirty KShape (GetPrimPath h masterDag False)
                             [DirtyInstancer, DirtyInstanceIndex, DirtyPrimvar]]
            \<and> AddNewInstance h dag s
              = s\<lparr>adaptersToRebuild := adaptersToRebuild (AddNewInstance h dag s),
                  calls := calls (AddNewInstance h dag s)\<rparr>)"
proof -
  have eq: "AddNewInstance h dag s =
     (if rest = [] \<or> \<not> sa_IsInstanced masterAdapter
      then RecreateAdapterOnIdle (GetPrimPath h masterDag False) (node h masterDag) s
      else (RebuildAdapterOnIdle (GetPrimPath h masterDag False) (RebuildFlagCallbacks h) s)
             \<lparr>calls := calls s @ [MarkDirty KShape (GetPrimPath h masterDag False)
                             [DirtyInstancer, DirtyInstanceIndex, DirtyPrimvar]]\<rparr>)"
    using assms by (simp add: AddNewInstance_def Let_def RebuildAdapterOnIdle_def)
  show ?thesis
    unfolding eq
    by (simp add: RecreateAdapterOnIdle_def RebuildAdapterOnIdle_def
        recreate_enqueue_map_of rebuild_enqueue_map_of)
qed

theorem AddNewInstance_cases_witness:
  "getAllPathsTo exHost (node exHost ''|mesh3b'') = [''|mesh3'', ''|mesh3b'']
   \<and> adaptersToRecreate
       (AddNewInstance exHost ''|mesh3b''
          (emptyDelegate\<lparr>shapeAdapters := [(PrimPath ''/rprims|mesh3'', exShape ''|mesh3'')]\<rparr>))
     = [(PrimPath ''/rprims|mesh3'', Node 3)]
   \<and> adaptersToRecreate
       (AddNewInstance exHost ''|mesh3b''
          (emptyDelegate\<lparr>shapeAdapters :=
             [(PrimPath ''/rprims|mesh3'', (exShape ''|mesh3'')\<lparr>sa_IsInstanced := True\<rparr>)]\<rparr>))
     = []
   \<and> adaptersToRebuild
       (AddNewInstance exHost ''|mesh3b''
          (emptyDelegate\<lparr>shapeAdapters :=
             [(PrimPath ''/rprims|mesh3'', (exShape ''|mesh3'')\<lparr>sa_IsInstanced := True\<rparr>)]\<rparr>))
     = [(PrimPath ''/rprims|mesh3'', 4)]"
  using
    AddNewInstance_cases [of exHost "''|mesh3b''" "''|mesh3''" "[''|mesh3b'']"
      "emptyDelegate\<lparr>shapeAdapters := [(PrimPath ''/rprims|mesh3'', exShape ''|mesh3'')]\<rparr>"
      "exShape ''|mesh3''"]
    AddNewInstance_cases [of exHost "''|mesh3b''" "''|mesh3''" "[''|mesh3b'']"
      "emptyDelegate\<lparr>shapeAdapters :=
         [(PrimPath ''/rprims|mesh3'', (exShape ''|mesh3'')\<lparr>sa_IsInstanced := True\<rparr>)]\<rparr>"
      "(exShape ''|mesh3'')\<lparr>sa_IsInstanced := True\<rparr>"]
  by (simp add: exHost_def exShape_def emptyDelegate_def AddNewInstance_def
      RecreateAdapterOnIdle_def RebuildAdapterOnIdle_def Let_def)

subsection \<open>Host lifecycle handlers\<close>

lemma filter_neq_id: "obj \<notin> set xs \<Longrightarrow> filter (\<lambda>item. item \<noteq> obj) xs = xs"
  by (induction xs) auto

lemma OnDagNodeRemoved_queues:
  assumes "queues_wf h s"
  shows "lightsToAdd (OnDagNodeRemoved h obj s) = filter (\<lambda>item. item \<noteq> obj) (lightsToAdd s)"
    and "addedNodes (OnDagNodeRemoved h obj s) = filter (\<lambda>item. item \<noteq> obj) (addedNodes s)"
proof -
  show "lightsToAdd (OnDagNodeRemoved h obj s) = filter (\<lambda>item. item \<noteq> obj) (lightsToAdd s)"
    by (simp add: OnDagNodeRemoved_def filter_neq_id)
  show "addedNodes (OnDagNodeRemoved h obj s) = filter (\<lambda>item. item \<noteq> obj) (addedNodes s)"
  proof (cases "obj \<in> set (lightsToAdd s)")
    case True
    with assms have "GetLightAdapterCreator_obj h obj"
      by (auto simp: queues_wf_def list_all_iff)
    with assms have "obj \<notin> set (addedNodes s)"
      by (auto simp: queues_wf_def list_all_iff)
    with True show ?thesis by (simp add: OnDagNodeRemoved_def filter_neq_id)
  next
    case False
    show ?thesis
    proof (cases "useMeshAdapter h")
      case True
      with False show ?thesis by (simp add: OnDagNodeRemoved_def)
    next
      case nomesh: False
      with assms have "addedNodes s = []"
        by (cases "addedNodes s") (auto simp: queues_wf_def)
      with False nomesh show ?thesis by (simp add: OnDagNodeRemoved_def)
    qed
  qed
qed

lemma OnDagNodeAdded_wf: "queues_wf h s \<Longrightarrow> queues_wf h (OnDagNodeAdded h obj s)"
  by (auto simp: queues_wf_def OnDagNodeAdded_def)

lemma OnDagNodeRemoved_wf: "queues_wf h s \<Longrightarrow> queues_wf h (OnDagNodeRemoved h obj s)"
  by (auto simp: queues_wf_def OnDagNodeRemoved_def list_all_iff)

text \<open>
  Claim C10. For every node handle, \<^verbatim>\<open>OnDagNodeAdded\<close> and \<^verbatim>\<open>OnDagNodeRemoved\<close> change
  nothing but the two node queues: every adapter table, the render index and the calls
  made are as before. With queues as \<^verbatim>\<open>OnDagNodeAdded\<close> fills them,
  \<^verbatim>\<open>OnDagNodeRemoved\<close> leaves no entry of the handle in either queue, and adding a node
  and then removing it leaves the delegate as it was, less the entries of that handle:
  the next pass finds nothing to create an adapter from.
\<close>

theorem OnDagNode_added_then_removed:
  assumes "queues_wf h s"
  shows "OnDagNodeAdded h obj s =
           s\<lparr>lightsToAdd := lightsToAdd (OnDagNodeAdded h obj s),
             addedNodes := addedNodes (OnDagNodeAdded h obj s)\<rparr>
         \<and> OnDagNodeRemoved h obj s =
           s\<lparr>lightsToAdd := lightsToAdd (OnDagNodeRemoved h obj s),
             addedNodes := addedNodes (OnDagNodeRemoved h obj s)\<rparr>
         \<and> obj \<notin> set (lightsToAdd (OnDagNodeRemoved h obj s))
         \<and> obj \<notin> set (addedNodes (OnDagNodeRemoved h obj s))
         \<and> OnDagNodeRemoved h obj (OnDagNodeAdded h obj s) =
           s\<lparr>lightsToAdd := filter (\<lambda>item. item \<noteq> obj) (lightsToAdd s),
             addedNodes := filter (\<lambda>item. item \<noteq> obj) (addedNodes s)\<rparr>"
proof -
  have a: "OnDagNodeAdded h obj s =
           s\<lparr>lightsToAdd := lightsToAdd (OnDagNodeAdded h obj s),
             addedNodes := addedNodes (OnDagNodeAdded h obj s)\<rparr>"
    by (simp add: OnDagNodeAdded_def)
  have r: "OnDagNodeRemoved h obj t =
           t\<lparr>lightsToAdd := lightsToAdd (OnDagNodeRemoved h obj t),
             addedNodes := addedNodes (OnDagNodeRemoved h obj t)\<rparr>" for t
    by (simp add: OnDagNodeRemoved_def)
  have l: "obj \<notin> set (lightsToAdd (OnDagNodeRemoved h obj s))"
    using OnDagNodeRemoved_queues(1) [OF assms, of obj] by simp
  have n: "obj \<notin> set (addedNodes (OnDagNodeRemoved h obj s))"
    using OnDagNodeRemoved_queues(2) [OF assms, of obj] by simp
  have wf: "queues_wf h (OnDagNodeAdded h obj s)"
    using assms by (rule OnDagNodeAdded_wf)
  have "lightsToAdd (OnDagNodeRemoved h obj (OnDagNodeAdded h obj s))
          = filter (\<lambda>item. item \<noteq> obj) (lightsToAdd s)"
    by (simp add: OnDagNodeRemoved_queues(1) [OF wf]) (simp add: OnDagNodeAdded_def)
  moreover have "addedNodes (OnDagNodeRemoved h obj (OnDagNodeAdded h obj s))
          = filter (\<lambda>item. item \<noteq> obj) (addedNodes s)"
    by (simp add: OnDagNodeRemoved_queues(2) [OF wf]) (simp add: OnDagNodeAdded_def)
  ultimately have ar: "OnDagNodeRemoved h obj (OnDagNodeAdded h obj s) =
           s\<lparr>lightsToAdd := filter (\<lambda>item. item \<noteq> obj) (lightsToAdd s),
             addedNodes := filter (\<lambda>item. item \<noteq> obj) (addedNodes s)\<rparr>"
    by (subst r, subst a) simp
  from a r [of s] l n ar show ?thesis by blast
qed

theorem OnDagNode_added_then_removed_witness:
  "queues_wf exHost (emptyDelegate\<lparr>lightsToAdd := [Node 2], addedNodes := [Node 3]\<rparr>)
   \<and> lightsToAdd (OnDagNodeAdded exHost (Node 1)
        (emptyDelegate\<lparr>lightsToAdd := [Node 2], addedNodes := [Node 3]\<rparr>)) = [Node 2, Node 1]
   \<and> OnDagNodeRemoved exHost (Node 1)
       (OnDagNodeAdded exHost (Node 1)
          (emptyDelegate\<lparr>lightsToAdd := [Node 2], addedNodes := [Node 3]\<rparr>))
     = emptyDelegate\<lparr>lightsToAdd := [Node 2], addedNodes := [Node 3]\<rparr>"
  using OnDagNode_added_then_removed
    [of exHost "emptyDelegate\<lparr>lightsToAdd := [Node 2], addedNodes := [Node 3]\<rparr>" "Node 1"]
  by (simp add: queues_wf_def exHost_def emptyDelegate_def OnDagNodeAdded_def isNull_def)

subsection \<open>Evaluating the examples\<close>

lemmas ex_defs = exHost_def emptyDelegate_def exLight_def exShape_def exMaterial_def
  exContext_def exRenderItem_def exWithRenderItem_def exStalled_def

lemmas step_defs = PreFrame_def PreFrame_displayStyle_def PreFrame_materialTags_def
  PreFrame_lightsToAdd_def PreFrame_addedNodes_def PreFrame_recreate_def PreFrame_rebuild_def
  PreFrame_lights_def priv_GetActiveLightPaths_def CreateLightAdapter_def priv_CreateAdapter_def
  tbl_insert_def tbl_erase_def tbl_update_def fullPathName_def RecreateAdapter_def
  OnDagNodeAdded_def isNull_def rebuild_calls_def as_adapters_def Let_def

subsection \<open>The two render-item tables\<close>

text \<open>
  Claim C1 (the code departs from it). A render item held by both tables, which agree,
  is removed through \<^verbatim>\<open>RemoveAdapter\<close> with its identity path: the path-keyed table
  no longer has the path, the fast table still answers the item's fast key with the
  adapter, and the tables no longer agree.
\<close>

theorem RemoveAdapter_renderItem_keeps_fast_entry:
  "renderItems_consistent exWithRenderItem
   \<and> map_of (renderItemsAdapters exWithRenderItem) (PrimPath ''/rprims/item1'') = Some exRenderItem
   \<and> priv_GetRenderItem 1 exWithRenderItem = Some exRenderItem
   \<and> map_of (renderItemsAdapters (RemoveAdapter (PrimPath ''/rprims/item1'') exWithRenderItem))
        (PrimPath ''/rprims/item1'') = None
   \<and> priv_GetRenderItem 1 (RemoveAdapter (PrimPath ''/rprims/item1'') exWithRenderItem)
       = Some exRenderItem
   \<and> \<not> renderItems_consistent (RemoveAdapter (PrimPath ''/rprims/item1'') exWithRenderItem)"
  by (simp add: ex_defs renderItems_consistent_def priv_AddRenderItem_def RemoveAdapter_def
      priv_GetRenderItem_def tbl_insert_def tbl_erase_def)

subsection \<open>A queued light without a path\<close>

text \<open>
  Claim C3 (the code departs from it). The first queued light (node 9) has no path any
  more. \<^verbatim>\<open>PreFrame\<close> returns at once: the delegate is as before the pass, so the second
  queued light (node 1) gets no adapter, the light queue keeps both entries, and the
  pending recreate and rebuild are not looked at. Without node 9 in the queue the same
  pass makes the adapter of node 1 and applies the recreate.
\<close>

theorem PreFrame_stops_at_unresolved_light:
  "getAPathTo exHost (Node 9) = None
   \<and> getAPathTo exHost (Node 1) = Some ''|light1''
   \<and> PreFrame exHost exContext exStalled = exStalled
   \<and> map_of (lightAdapters (PreFrame exHost exContext (exStalled\<lparr>lightsToAdd := [Node 1]\<rparr>)))
        (PrimPath ''/sprims|light1'') = Some (exLight ''|light1'')
   \<and> lightsToAdd (PreFrame exHost exContext (exStalled\<lparr>lightsToAdd := [Node 1]\<rparr>)) = [Node 2]"
  by (simp add: ex_defs step_defs)

text \<open>
  Claim C5 (the code departs from it, by the early return of claim C3). An identity has
  a recreate and a rebuild pending, and the light queue starts with a node without a
  path: after the pass both queues are as before and no call was made. With an empty
  light queue the recreate is applied (the adapter's callbacks and prim are removed), the
  rebuild of the identity is dropped unapplied, and both queues end empty.
\<close>

theorem PreFrame_recreate_not_reached:
  "adaptersToRecreate (PreFrame exHost exContext exStalled) = [(PrimPath ''/sprims|light2'', Node 2)]
   \<and> adaptersToRebuild (PreFrame exHost exContext exStalled) = [(PrimPath ''/sprims|light2'', 2)]
   \<and> calls (PreFrame exHost exContext exStalled) = []
   \<and> adaptersToRecreate (PreFrame exHost exContext (exStalled\<lparr>lightsToAdd := []\<rparr>)) = []
   \<and> adaptersToRebuild (PreFrame exHost exContext (exStalled\<lparr>lightsToAdd := []\<rparr>)) = []
   \<and> calls (PreFrame exHost exContext (exStalled\<lparr>lightsToAdd := []\<rparr>))
       = [RemoveCallbacks KLight (PrimPath ''/sprims|light2''), RemovePrim KLight (PrimPath ''/sprims|light2'')]"
  by (simp add: ex_defs step_defs)

subsection \<open>Tables\<close>

lemma map_of_tbl_insert_same:
  "map_of (tbl_insert k v t) k = Some (case map_of t k of None \<Rightarrow> v | Some w \<Rightarrow> w)"
  by (auto simp: tbl_insert_def map_add_def)

lemma map_of_tbl_insert_other:
  "k' \<noteq> k \<Longrightarrow> map_of (tbl_insert k v t) k' = map_of t k'"
  by (auto simp: tbl_insert_def map_add_def split: option.splits)

lemma map_of_tbl_update_other:
  "k' \<noteq> k \<Longrightarrow> map_of (tbl_update k f t) k' = map_of t k'"
  by (induction t) (auto simp: tbl_update_def)

subsection \<open>Material id\<close>

text \<open>
  Claim C6, as stated, fails: a shape whose material is not registered gets the material's
  path, not the fallback, when the material adapter can be created on demand.
\<close>

theorem GetMaterialId_lazy_creation:
  "\<not> useDefaultMaterial exWithShape
   \<and> map_of (renderItemsAdapters exWithShape) (PrimPath ''/rprims|mesh3'') = None
   \<and> map_of (shapeAdapters exWithShape) (PrimPath ''/rprims|mesh3'') = Some (exShape ''|mesh3'')
   \<and> GetMaterialPath exHost (sa_Material (exShape ''|mesh3'')) = PrimPath ''/materials/m7''
   \<and> map_of (materialAdapters exWithShape) (PrimPath ''/materials/m7'') = None
   \<and> fst (GetMaterialId exHost (PrimPath ''/rprims|mesh3'') exWithShape) = PrimPath ''/materials/m7''
   \<and> fst (GetMaterialId exHost (PrimPath ''/rprims|mesh3'') exWithShape) \<noteq> fallbackMaterial"
  by (simp add: exWithShape_def emptyDelegate_def exHost_def exShape_def exMaterial_def
      GetMaterialId_def GetMaterialId_renderItem_def priv_CreateMaterial_def fallbackMaterial_def
      EmptyPath_def Let_def)

lemma priv_CreateMaterial_result:
  "fst (priv_CreateMaterial h ident obj s) \<longleftrightarrow>
     (\<exists>c a. GetMaterialAdapterCreator h obj = Some c \<and> c ident obj = Some a \<and> ma_IsSupported a)"
  by (auto simp: priv_CreateMaterial_def Let_def split: option.splits)

lemma priv_CreateMaterial_registers:
  "fst (priv_CreateMaterial h ident obj s)
    \<Longrightarrow> map_of (materialAdapters (snd (priv_CreateMaterial h ident obj s))) ident \<noteq> None"
  by (auto simp: priv_CreateMaterial_def Let_def map_of_tbl_insert_same split: option.splits if_splits)

text \<open>
  When the block of \<^verbatim>\<open>GetMaterialId\<close> on the render item falls through to the shape
  adapters: the identity is no render item, or it is one that is not drawn as lines and
  whose material is valid and not registered.
\<close>

lemma GetMaterialId_renderItem_None_iff:
  "GetMaterialId_renderItem h ident s = None \<longleftrightarrow>
     (map_of (renderItemsAdapters s) ident = None
      \<or> (\<exists>ri. map_of (renderItemsAdapters s) ident = Some ri
             \<and> ria_Primitive ri \<noteq> kLines \<and> ria_Primitive ri \<noteq> kLineStrip
             \<and> ria_Material ri \<noteq> kInvalidMaterial h
             \<and> map_of (materialAdapters s) (ria_Material ri) = None))"
  by (auto simp: GetMaterialId_renderItem_def Let_def split: option.splits)

text \<open>
  Claim C6, amended. The order of \<^verbatim>\<open>GetMaterialId\<close>: with the default-material flag
  set, the default material path, for every identity. Otherwise, for a render item: the
  fallback if its primitive is lines or a line strip, or if its material is the invalid
  material; its material if that is registered. Otherwise (no render item, or one whose
  material is not registered), with the mesh adapter in use and a shape adapter with a
  material: the material's path if it is registered; if not, the material adapter is
  created on demand, and the answer is the material's path (now registered) when that
  succeeds and the fallback when it fails. In every other case the fallback.
\<close>

theorem GetMaterialId_order:
  "(useDefaultMaterial s \<longrightarrow> fst (GetMaterialId h ident s) = mayaDefaultMaterialPath)
   \<and> (\<not> useDefaultMaterial s \<and> map_of (renderItemsAdapters s) ident = Some ria
        \<and> (ria_Primitive ria = kLines \<or> ria_Primitive ria = kLineStrip)
       \<longrightarrow> fst (GetMaterialId h ident s) = fallbackMaterial)
   \<and> (\<not> useDefaultMaterial s \<and> map_of (renderItemsAdapters s) ident = Some ria
        \<and> ria_Primitive ria \<noteq> kLines \<and> ria_Primitive ria \<noteq> kLineStrip
        \<and> ria_Material ria = kInvalidMaterial h
       \<longrightarrow> fst (GetMaterialId h ident s) = fallbackMaterial)
   \<and> (\<not> useDefaultMaterial s \<and> map_of (renderItemsAdapters s) ident = Some ria
        \<and> ria_Primitive ria \<noteq> kLines \<and> ria_Primitive ria \<noteq> kLineStrip
        \<and> ria_Material ria \<noteq> kInvalidMaterial h
        \<and> map_of (materialAdapters s) (ria_Material ria) \<noteq> None
       \<longrightarrow> fst (GetMaterialId h ident s) = ria_Material ria)
   \<and> (\<not> useDefaultMaterial s
        \<and> (map_of (renderItemsAdapters s) ident = None
            \<or> (\<exists>ri. map_of (renderItemsAdapters s) ident = Some ri
                   \<and> ria_Primitive ri \<noteq> kLines \<and> ria_Primitive ri \<noteq> kLineStrip
                   \<and> ria_Material ri \<noteq> kInvalidMaterial h
                   \<and> map_of (materialAdapters s) (ria_Material ri) = None))
        \<and> useMeshAdapter h \<and> map_of (shapeAdapters s) ident = Some sa
        \<and> sa_Material sa \<noteq> kNullObj
       \<longrightarrow> (if map_of (materialAdapters s) (GetMaterialPath h (sa_Material sa)) \<noteq> None
            then GetMaterialId h ident s = (GetMaterialPath h (sa_Material sa), s)
            else if fst (priv_CreateMaterial h (GetMaterialPath h (sa_Material sa)) (sa_Material sa) s)
            then fst (GetMaterialId h ident s) = GetMaterialPath h (sa_Material sa)
              \<and> map_of (materialAdapters (snd (GetMaterialId h ident s)))
                   (GetMaterialPath h (sa_Material sa)) \<noteq> None
            else fst (GetMaterialId h ident s) = fallbackMaterial))
   \<and> (\<not> useDefaultMaterial s
        \<and> (map_of (renderItemsAdapters s) ident = None
            \<or> (\<exists>ri. map_of (renderItemsAdapters s) ident = Some ri
                   \<and> ria_Primitive ri \<noteq> kLines \<and> ria_Primitive ri \<noteq> kLineStrip
                   \<and> ria_Material ri \<noteq> kInvalidMaterial h
                   \<and> map_of (materialAdapters s) (ria_Material ri) = None))
        \<and> (\<not> useMeshAdapter h \<or> map_of (shapeAdapters s) ident = None
            \<or> (\<exists>sa. map_of (shapeAdapters s) ident = Some sa \<and> sa_Material sa = kNullObj))
       \<longrightarrow> fst (GetMaterialId h ident s) = fallbackMaterial)"
proof -
  let ?through = "map_of (renderItemsAdapters s) ident = None
            \<or> (\<exists>ri. map_of (renderItemsAdapters s) ident = Some ri
                   \<and> ria_Primitive ri \<noteq> kLines \<and> ria_Primitive ri \<noteq> kLineStrip
                   \<and> ria_Material ri \<noteq> kInvalidMaterial h
                   \<and> map_of (materialAdapters s) (ria_Material ri) = None)"
  have through: "GetMaterialId_renderItem h ident s = None" if ?through
    using that by (simp only: GetMaterialId_renderItem_None_iff)
  have a: "useDefaultMaterial s \<Longrightarrow> fst (GetMaterialId h ident s) = mayaDefaultMaterialPath"
    by (simp add: GetMaterialId_def)
  have b: "fst (GetMaterialId h ident s) = fallbackMaterial"
    if "\<not> useDefaultMaterial s" "map_of (renderItemsAdapters s) ident = Some ria"
      "ria_Primitive ria = kLines \<or> ria_Primitive ria = kLineStrip"
    using that by (auto simp: GetMaterialId_def GetMaterialId_renderItem_def)
  have c: "fst (GetMaterialId h ident s) = fallbackMaterial"
    if "\<not> useDefaultMaterial s" "map_of (renderItemsAdapters s) ident = Some ria"
      "ria_Material ria = kInvalidMaterial h"
    using that by (auto simp: GetMaterialId_def GetMaterialId_renderItem_def Let_def)
  have d: "fst (GetMaterialId h ident s) = ria_Material ria"
    if "\<not> useDefaultMaterial s" "map_of (renderItemsAdapters s) ident = Some ria"
      "ria_Primitive ria \<noteq> kLines" "ria_Primitive ria \<noteq> kLineStrip"
      "ria_Material ria \<noteq> kInvalidMaterial h"
      "map_of (materialAdapters s) (ria_Material ria) \<noteq> None"
    using that by (auto simp: GetMaterialId_def GetMaterialId_renderItem_def Let_def)
  have e: "(if map_of (materialAdapters s) (GetMaterialPath h (sa_Material sa)) \<noteq> None
            then GetMaterialId h ident s = (GetMaterialPath h (sa_Material sa), s)
            else if fst (priv_CreateMaterial h (GetMaterialPath h (sa_Material sa)) (sa_Material sa) s)
            then fst (GetMaterialId h ident s) = GetMaterialPath h (sa_Material sa)
              \<and> map_of (materialAdapters (snd (GetMaterialId h ident s)))
                   (GetMaterialPath h (sa_Material sa)) \<noteq> None
            else fst (GetMaterialId h ident s) = fallbackMaterial)"
    if h: "\<not> useDefaultMaterial s" ?through
      "useMeshAdapter h" "map_of (shapeAdapters s) ident = Some sa" "sa_Material sa \<noteq> kNullObj"
  proof -
    let ?p = "GetMaterialPath h (sa_Material sa)"
    let ?c = "priv_CreateMaterial h ?p (sa_Material sa) s"
    have g: "GetMaterialId h ident s =
       (if map_of (materialAdapters s) ?p \<noteq> None then (?p, s)
        else if fst ?c then (?p, snd ?c) else (fallbackMaterial, snd ?c))"
      using h(1,3,4,5) through [OF h(2)] by (cases ?c) (auto simp: GetMaterialId_def Let_def)
    show ?thesis
      using priv_CreateMaterial_registers [of h ?p "sa_Material sa" s]
      by (simp add: g)
  qed
  have f: "fst (GetMaterialId h ident s) = fallbackMaterial"
    if h: "\<not> useDefaultMaterial s" ?through
      "\<not> useMeshAdapter h \<or> map_of (shapeAdapters s) ident = None
            \<or> (\<exists>sa. map_of (shapeAdapters s) ident = Some sa \<and> sa_Material sa = kNullObj)"
    using h(1,3) through [OF h(2)] by (auto simp: GetMaterialId_def Let_def)
  from a b c d e f show ?thesis by blast
qed

theorem GetMaterialId_order_witness:
  "fst (GetMaterialId exHost (PrimPath ''/rprims|mesh3'') (exWithShape\<lparr>useDefaultMaterial := True\<rparr>))
     = PrimPath ''/__maya_default_material__''
   \<and> map_of (renderItemsAdapters (exWithRenderItem\<lparr>renderItemsAdapters :=
          [(PrimPath ''/rprims/item1'', exRenderItem\<lparr>ria_Primitive := kLines\<rparr>)]\<rparr>))
        (PrimPath ''/rprims/item1'') = Some (exRenderItem\<lparr>ria_Primitive := kLines\<rparr>)
   \<and> fst (GetMaterialId exHost (PrimPath ''/rprims/item1'')
        (exWithRenderItem\<lparr>renderItemsAdapters :=
          [(PrimPath ''/rprims/item1'', exRenderItem\<lparr>ria_Primitive := kLines\<rparr>)]\<rparr>)) = PrimPath []
   \<and> map_of (renderItemsAdapters exWithShape) (PrimPath ''/rprims|mesh3'') = None
   \<and> fst (priv_CreateMaterial exHost (PrimPath ''/materials/m7'') (Node 7) exWithShape)
   \<and> fst (GetMaterialId exHost (PrimPath ''/rprims|mesh3'') exWithShape) = PrimPath ''/materials/m7''
   \<and> map_of (renderItemsAdapters (exWithShape\<lparr>renderItemsAdapters :=
          [(PrimPath ''/rprims|mesh3'', exRenderItem\<lparr>ria_Material := PrimPath ''/materials/other''\<rparr>)]\<rparr>))
        (PrimPath ''/rprims|mesh3'') = Some (exRenderItem\<lparr>ria_Material := PrimPath ''/materials/other''\<rparr>)
   \<and> fst (GetMaterialId exHost (PrimPath ''/rprims|mesh3'')
        (exWithShape\<lparr>renderItemsAdapters :=
          [(PrimPath ''/rprims|mesh3'', exRenderItem\<lparr>ria_Material := PrimPath ''/materials/other''\<rparr>)]\<rparr>))
       = PrimPath ''/materials/m7''
   \<and> fst (GetMaterialId exHost (PrimPath ''/nowhere'') exWithShape) = PrimPath []"
  using
    GetMaterialId_order [where h = exHost and ident = "PrimPath ''/rprims|mesh3''"
      and s = "exWithShape\<lparr>useDefaultMaterial := True\<rparr>"]
    GetMaterialId_order [where h = exHost and ident = "PrimPath ''/rprims/item1''"
      and ria = "exRenderItem\<lparr>ria_Primitive := kLines\<rparr>"
      and s = "exWithRenderItem\<lparr>renderItemsAdapters :=
          [(PrimPath ''/rprims/item1'', exRenderItem\<lparr>ria_Primitive := kLines\<rparr>)]\<rparr>"]
    GetMaterialId_order [where h = exHost and ident = "PrimPath ''/rprims|mesh3''"
      and s = exWithShape and sa = "exShape ''|mesh3''"]
    GetMaterialId_order [where h = exHost and ident = "PrimPath ''/rprims|mesh3''"
      and sa = "exShape ''|mesh3''"
      and s = "exWithShape\<lparr>renderItemsAdapters :=
          [(PrimPath ''/rprims|mesh3'', exRenderItem\<lparr>ria_Material := PrimPath ''/materials/other''\<rparr>)]\<rparr>"]
    GetMaterialId_order [where h = exHost and ident = "PrimPath ''/nowhere''" and s = exWithShape]
  by (simp add: ex_defs exWithShape_def priv_AddRenderItem_def tbl_insert_def
      priv_CreateMaterial_def mayaDefaultMaterialPath_def
      fallbackMaterial_def EmptyPath_def Let_def)

subsection \<open>Queries for an unknown identity\<close>





subsection \<open>Material tag changes\<close>

lemma or_and_absorb:
  fixes fl :: "32 word"
  assumes "fl AND flag = flag"
  shows "(fl OR f) AND flag = flag"
proof -
  have "(fl OR f) AND flag = (fl AND flag) OR (f AND flag)"
    by (simp add: bit.conj_disj_distrib2)
  also have "\<dots> = flag OR (f AND flag)"
    using assms by simp
  also have "\<dots> = flag"
    by simp
  finally show ?thesis .
qed

lemma rebuild_enqueue_pending_new: "rebuild_pending flag (rebuild_enqueue ident flag q) ident"
  by (simp add: rebuild_pending_def rebuild_enqueue_map_of split: option.splits)

lemma rebuild_enqueue_pending_keeps:
  "rebuild_pending flag q r \<Longrightarrow> rebuild_pending flag (rebuild_enqueue ident f q) r"
  by (cases "r = ident")
    (auto simp: rebuild_pending_def rebuild_enqueue_map_of rebuild_enqueue_map_of_other or_and_absorb
      split: option.splits)

lemma rebuild_rprims_fields:
  "rprims (rebuild_rprims h ident rs s) = rprims s"
  "calls (rebuild_rprims h ident rs s) = calls s"
  "lightAdapters (rebuild_rprims h ident rs s) = lightAdapters s"
  "materialAdapters (rebuild_rprims h ident rs s) = materialAdapters s"
  "lightsToAdd (rebuild_rprims h ident rs s) = lightsToAdd s"
  "addedNodes (rebuild_rprims h ident rs s) = addedNodes s"
  "adaptersToRecreate (rebuild_rprims h ident rs s) = adaptersToRecreate s"
  "materialTagsChanged (rebuild_rprims h ident rs s) = materialTagsChanged s"
  by (induction rs arbitrary: s) (simp_all add: RebuildAdapterOnIdle_def)

lemma rebuild_rprims_keeps:
  "rebuild_pending flag (adaptersToRebuild s) r
    \<Longrightarrow> rebuild_pending flag (adaptersToRebuild (rebuild_rprims h ident rs s)) r"
  by (induction rs arbitrary: s) (auto simp: RebuildAdapterOnIdle_def rebuild_enqueue_pending_keeps)

lemma rebuild_rprims_schedules:
  "(r, ident) \<in> set rs
    \<Longrightarrow> rebuild_pending (RebuildFlagPrim h) (adaptersToRebuild (rebuild_rprims h ident rs s)) r"
proof (induction rs arbitrary: s)
  case Nil
  then show ?case by simp
next
  case (Cons rprim rs)
  show ?case
  proof (cases "rprim = (r, ident)")
    case True
    have "rebuild_pending (RebuildFlagPrim h)
            (adaptersToRebuild (RebuildAdapterOnIdle r (RebuildFlagPrim h) s)) r"
      by (simp add: RebuildAdapterOnIdle_def rebuild_enqueue_pending_new)
    then show ?thesis
      using True by (simp add: rebuild_rprims_keeps)
  next
    case False
    with Cons.prems have "(r, ident) \<in> set rs" by simp
    then show ?thesis by (simp add: Cons.IH)
  qed
qed

lemma materialTags_loop_fields:
  "rprims (materialTags_loop h ids s) = rprims s"
  "calls (materialTags_loop h ids s) = calls s"
  "lightAdapters (materialTags_loop h ids s) = lightAdapters s"
  "lightsToAdd (materialTags_loop h ids s) = lightsToAdd s"
  "addedNodes (materialTags_loop h ids s) = addedNodes s"
  "adaptersToRecreate (materialTags_loop h ids s) = adaptersToRecreate s"
  "materialTagsChanged (materialTags_loop h ids s) = materialTagsChanged s"
  by (induction ids arbitrary: s)
    (simp_all add: rebuild_rprims_fields Let_def split: option.splits)

lemma materialTags_loop_keeps:
  "rebuild_pending flag (adaptersToRebuild s) r
    \<Longrightarrow> rebuild_pending flag (adaptersToRebuild (materialTags_loop h ids s)) r"
  by (induction ids arbitrary: s)
    (auto simp: rebuild_rprims_keeps Let_def split: option.splits)

lemma materialTags_loop_schedules:
  assumes "M \<in> set ids" and "map_of (materialAdapters s) M = Some a" and "ma_TagStale a"
    and "(r, M) \<in> set (rprims s)"
  shows "rebuild_pending (RebuildFlagPrim h) (adaptersToRebuild (materialTags_loop h ids s)) r"
  using assms
proof (induction ids arbitrary: s)
  case Nil
  then show ?case by simp
next
  case (Cons ident ids)
  show ?case
  proof (cases "ident = M")
    case True
    let ?s1 = "s\<lparr>materialAdapters :=
                  tbl_update M (\<lambda>a. snd (UpdateMaterialTag a)) (materialAdapters s)\<rparr>"
    have "rebuild_pending (RebuildFlagPrim h)
            (adaptersToRebuild (rebuild_rprims h M (rprims ?s1) ?s1)) r"
      using Cons.prems(4) by (simp add: rebuild_rprims_schedules)
    then show ?thesis
      using True Cons.prems(2,3)
      by (simp add: UpdateMaterialTag_def materialTags_loop_keeps)
  next
    case False
    with Cons.prems(1) have in_rest: "M \<in> set ids" by simp
    show ?thesis
    proof (cases "map_of (materialAdapters s) ident")
      case None
      then show ?thesis
        using Cons.IH [OF in_rest Cons.prems(2,3,4)] by simp
    next
      case (Some b)
      let ?s1 = "s\<lparr>materialAdapters :=
                    tbl_update ident (\<lambda>a. snd (UpdateMaterialTag a)) (materialAdapters s)\<rparr>"
      let ?s2 = "if fst (UpdateMaterialTag b) then rebuild_rprims h ident (rprims ?s1) ?s1 else ?s1"
      have m: "map_of (materialAdapters ?s2) M = Some a"
        using False Cons.prems(2) by (simp add: rebuild_rprims_fields map_of_tbl_update_other)
      have rp: "(r, M) \<in> set (rprims ?s2)"
        using Cons.prems(4) by (simp add: rebuild_rprims_fields)
      show ?thesis
        using Cons.IH [OF in_rest m Cons.prems(3) rp] Some by (simp add: Let_def)
    qed
  qed
qed


lemma CreateAdapter_tags:
  "materialTagsChanged (snd (CreateLightAdapter h dag s)) = materialTagsChanged s"
  "materialTagsChanged (snd (CreateCameraAdapter h dag s)) = materialTagsChanged s"
  "materialTagsChanged (snd (CreateShapeAdapter h dag s)) = materialTagsChanged s"
  by (simp_all add: CreateLightAdapter_def CreateCameraAdapter_def CreateShapeAdapter_def
      case_prod_beta)

lemma priv_CreateMaterial_tags:
  "materialTagsChanged (snd (priv_CreateMaterial h ident obj s)) = materialTagsChanged s"
  by (simp add: priv_CreateMaterial_def Let_def split: option.splits)

lemma InsertDag_tags: "materialTagsChanged (InsertDag h dag s) = materialTagsChanged s"
  by (simp add: InsertDag_def Let_def case_prod_beta CreateAdapter_tags priv_CreateMaterial_tags
      split: option.splits)

lemma OnDagNodeAdded_tags: "materialTagsChanged (OnDagNodeAdded h obj s) = materialTagsChanged s"
  by (simp add: OnDagNodeAdded_def)

lemma AddNewInstance_tags: "materialTagsChanged (AddNewInstance h dag s) = materialTagsChanged s"
  by (simp add: AddNewInstance_def Let_def RecreateAdapterOnIdle_def RebuildAdapterOnIdle_def
      split: list.splits option.splits)

lemma RecreateAdapter_tags:
  "materialTagsChanged (RecreateAdapter h ident obj s) = materialTagsChanged s"
  by (simp add: RecreateAdapter_def Let_def OnDagNodeAdded_tags InsertDag_tags
      priv_CreateMaterial_tags split: option.splits)

lemma lightsToAdd_loop_tags:
  "materialTagsChanged (flow_state (lightsToAdd_loop h objs s)) = materialTagsChanged s"
  by (induction objs arbitrary: s) (simp_all add: CreateAdapter_tags split: option.splits)

lemma children_loop_tags:
  "materialTagsChanged (children_loop h dags s) = materialTagsChanged s"
  by (induction dags arbitrary: s) (simp_all add: AddNewInstance_tags)

lemma addedNodes_loop_tags:
  "materialTagsChanged (flow_state (addedNodes_loop h objs s)) = materialTagsChanged s"
  by (induction objs arbitrary: s)
    (simp_all add: children_loop_tags InsertDag_tags split: option.splits)

lemma recreate_loop_tags:
  "materialTagsChanged (recreate_loop h its s) = materialTagsChanged s"
  by (induction its arbitrary: s) (simp_all add: RecreateAdapter_tags Let_def)

lemma rebuild_loop_tags:
  "materialTagsChanged (rebuild_loop h its s) = materialTagsChanged s"
  by (induction its arbitrary: s) simp_all

lemma create_lights_tags:
  "materialTagsChanged (create_lights h entries s) = materialTagsChanged s"
  by (induction entries arbitrary: s) (simp_all add: CreateAdapter_tags)

lemma PreFrame_steps_tags:
  "materialTagsChanged (flow_state (PreFrame_lightsToAdd h s)) = materialTagsChanged s"
  "materialTagsChanged (flow_state (PreFrame_addedNodes h s)) = materialTagsChanged s"
  "materialTagsChanged (PreFrame_recreate h s) = materialTagsChanged s"
  "materialTagsChanged (PreFrame_rebuild h s) = materialTagsChanged s"
  "materialTagsChanged (PreFrame_lights h context s) = materialTagsChanged s"
proof -
  show "materialTagsChanged (flow_state (PreFrame_lightsToAdd h s)) = materialTagsChanged s"
    using lightsToAdd_loop_tags [of h "lightsToAdd s" s]
    by (auto simp: PreFrame_lightsToAdd_def split: Flow.splits)
  show "materialTagsChanged (flow_state (PreFrame_addedNodes h s)) = materialTagsChanged s"
    using addedNodes_loop_tags [of h "addedNodes s" s]
    by (auto simp: PreFrame_addedNodes_def split: Flow.splits)
  show "materialTagsChanged (PreFrame_recreate h s) = materialTagsChanged s"
    by (simp add: PreFrame_recreate_def recreate_loop_tags)
  show "materialTagsChanged (PreFrame_rebuild h s) = materialTagsChanged s"
    by (simp add: PreFrame_rebuild_def rebuild_loop_tags)
  show "materialTagsChanged (PreFrame_lights h context s) = materialTagsChanged s"
    by (simp add: PreFrame_lights_def Let_def create_lights_tags split: prod.splits)
qed

lemma PreFrame_materialTags_empty: "materialTagsChanged (PreFrame_materialTags h s) = []"
  by (simp add: PreFrame_materialTags_def Let_def)

lemma PreFrame_tags_empty: "materialTagsChanged (PreFrame h context s) = []"
proof -
  let ?s2 = "PreFrame_materialTags h (PreFrame_displayStyle h context s)"
  have e2: "materialTagsChanged ?s2 = []"
    by (rule PreFrame_materialTags_empty)
  show ?thesis
  proof (cases "PreFrame_lightsToAdd h ?s2")
    case (Returned r)
    with PreFrame_steps_tags(1) [of h ?s2] e2 show ?thesis
      by (simp add: PreFrame_def)
  next
    case (Continues s3)
    with PreFrame_steps_tags(1) [of h ?s2] e2 have e3: "materialTagsChanged s3 = []"
      by simp
    show ?thesis
    proof (cases "PreFrame_addedNodes h s3")
      case (Returned r)
      with PreFrame_steps_tags(2) [of h s3] e3 Continues show ?thesis
        by (simp add: PreFrame_def)
    next
      case c4: (Continues s4)
      with PreFrame_steps_tags(2) [of h s3] e3 have e4: "materialTagsChanged s4 = []"
        by simp
      show ?thesis
        using Continues c4 e4 by (simp add: PreFrame_def Let_def PreFrame_steps_tags)
    qed
  qed
qed


text \<open>
  Claim C8, as stated, fails: with a backend other than Storm the changed material tag
  is dropped from its queue and no render prim bound to the material is queued for a
  rebuild, nor rebuilt.
\<close>

theorem materialTags_not_scheduled_without_HdSt:
  "PrimPath ''/materials/m7'' \<in> set (materialTagsChanged exTagChanged)
   \<and> map_option ma_TagStale (map_of (materialAdapters exTagChanged) (PrimPath ''/materials/m7''))
       = Some True
   \<and> (PrimPath ''/rprims|A'', PrimPath ''/materials/m7'') \<in> set (rprims exTagChanged)
   \<and> adaptersToRebuild (PreFrame_materialTags (exHost\<lparr>IsHdSt := False\<rparr>) exTagChanged) = []
   \<and> calls (PreFrame (exHost\<lparr>IsHdSt := False\<rparr>) exContext exTagChanged) = []
   \<and> materialTagsChanged (PreFrame (exHost\<lparr>IsHdSt := False\<rparr>) exContext exTagChanged) = []"
  by (simp add: ex_defs exTagChanged_def step_defs)

text \<open>
  Claim C8, amended. With the Storm backend, let a material's tag change be queued, let
  its adapter report a new tag (\<^verbatim>\<open>UpdateMaterialTag\<close>), and let a render prim be bound
  to the material. After the material-tag step of the pass a rebuild is pending for the
  prim with \<^verbatim>\<open>RebuildFlagPrim\<close> set, and the step made no call (no dirty mark); the
  queue of changed tags is empty after the step and after the pass.
\<close>

theorem materialTags_schedule_prim_rebuild:
  assumes "IsHdSt h" and "M \<in> set (materialTagsChanged s)"
    and "map_of (materialAdapters s) M = Some a" and "ma_TagStale a"
    and "(r, M) \<in> set (rprims s)"
  shows "rebuild_pending (RebuildFlagPrim h) (adaptersToRebuild (PreFrame_materialTags h s)) r
    \<and> calls (PreFrame_materialTags h s) = calls s
    \<and> materialTagsChanged (PreFrame_materialTags h s) = []
    \<and> materialTagsChanged (PreFrame h ctx s) = []"
proof -
  have ne: "materialTagsChanged s \<noteq> []"
    using assms(2) by auto
  have "rebuild_pending (RebuildFlagPrim h)
          (adaptersToRebuild (materialTags_loop h (materialTagsChanged s) s)) r"
    using assms(2-5) by (rule materialTags_loop_schedules)
  then have "rebuild_pending (RebuildFlagPrim h) (adaptersToRebuild (PreFrame_materialTags h s)) r"
    using assms(1) ne by (simp add: PreFrame_materialTags_def Let_def)
  moreover have "calls (PreFrame_materialTags h s) = calls s"
    by (simp add: PreFrame_materialTags_def Let_def materialTags_loop_fields)
  ultimately show ?thesis
    by (simp add: PreFrame_materialTags_empty PreFrame_tags_empty)
qed

theorem materialTags_schedule_prim_rebuild_witness:
  "IsHdSt exHost
   \<and> adaptersToRebuild (PreFrame_materialTags exHost exTagChanged)
       = [(PrimPath ''/rprims|A'', 2), (PrimPath ''/rprims|B'', 2)]
   \<and> rebuild_pending (RebuildFlagPrim exHost)
        (adaptersToRebuild (PreFrame_materialTags exHost exTagChanged)) (PrimPath ''/rprims|B'')
   \<and> materialTagsChanged (PreFrame exHost exContext exTagChanged) = []"
  using materialTags_schedule_prim_rebuild
    [where h = exHost and s = exTagChanged and M = "PrimPath ''/materials/m7''"
       and a = "exMaterial\<lparr>ma_TagStale := True\<rparr>" and r = "PrimPath ''/rprims|B''"
       and ctx = exContext]
  by (simp add: ex_defs exTagChanged_def PreFrame_materialTags_def UpdateMaterialTag_def tbl_update_def
      RebuildAdapterOnIdle_def Let_def)

subsection \<open>The light sweep\<close>

lemma tbl_insert_keys: "fst ` set (tbl_insert k v t) = insert k (fst ` set t)"
  by (auto simp: tbl_insert_def map_of_eq_None_iff)

lemma tbl_erase_keys: "fst ` set (tbl_erase k t) = fst ` set t - {k}"
  by (auto simp: tbl_erase_def)

lemma tbl_insert_distinct: "distinct (map fst t) \<Longrightarrow> distinct (map fst (tbl_insert k v t))"
  by (auto simp: tbl_insert_def map_of_eq_None_iff)

lemma map_of_tbl_insert_keeps: "map_of t P = Some a \<Longrightarrow> map_of (tbl_insert k v t) P = Some a"
  by (auto simp: tbl_insert_def)

lemma map_of_tbl_update:
  "map_of (tbl_update k f t) P = (if P = k then map_option f (map_of t P) else map_of t P)"
  by (induction t) (auto simp: tbl_update_def)

lemma tbl_update_keys: "map fst (tbl_update k f t) = map fst t"
  by (induction t) (auto simp: tbl_update_def)

lemma map_of_is_key: "map_of t k \<noteq> None \<longleftrightarrow> k \<in> fst ` set t"
  by (simp add: map_of_eq_None_iff)

lemma lights_wf_distinct_dags:
  assumes "lights_wf h s"
  shows "distinct (map (\<lambda>e. la_DagPath (snd e)) (lightAdapters s))"
proof -
  from assms have "map fst (lightAdapters s)
      = map (\<lambda>d. GetPrimPath h d True) (map (\<lambda>e. la_DagPath (snd e)) (lightAdapters s))"
    by (auto simp: lights_wf_def list_all_iff)
  moreover from assms have "distinct (map fst (lightAdapters s))"
    by (simp add: lights_wf_def)
  ultimately show ?thesis
    by (metis distinct_map)
qed

lemma snapshot_keys_foldl:
  "fst ` set (foldl (\<lambda>activeLightPaths entry.
              tbl_insert (fullPathName (la_DagPath (snd entry))) (la_DagPath (snd entry))
                activeLightPaths) acc las)
   = fst ` set acc \<union> (\<lambda>e. la_DagPath (snd e)) ` set las"
  by (induction las arbitrary: acc) (auto simp: tbl_insert_keys fullPathName_def)

lemma snapshot_keys:
  "fst ` set (priv_GetActiveLightPaths s) = (\<lambda>e. la_DagPath (snd e)) ` set (lightAdapters s)"
  by (simp add: priv_GetActiveLightPaths_def snapshot_keys_foldl)

lemma activeLights_loop_keys:
  "fst ` set act \<subseteq> fst ` set (fst (activeLights_loop h lps act las))"
proof (induction h lps act las rule: activeLights_loop.induct)
  case (1 h activeLightPaths las)
  then show ?case by simp
next
  case (2 h rest activeLightPaths las)
  then show ?case by simp
next
  case (3 h lightParam rest activeLightPaths las)
  then show ?case
    by (auto simp: Let_def tbl_insert_keys split: option.splits list.splits if_splits)
qed


lemma tbl_update_dags:
  "map (\<lambda>e. la_DagPath (snd e))
     (tbl_update k (\<lambda>a. a\<lparr>la_ShadowProjectionMatrix := m\<rparr>) las)
   = map (\<lambda>e. la_DagPath (snd e)) las"
  by (induction las) (auto simp: tbl_update_def)

lemma activeLights_loop_lights:
  "map fst (snd (activeLights_loop h lps act las)) = map fst las
   \<and> map (\<lambda>e. la_DagPath (snd e)) (snd (activeLights_loop h lps act las))
       = map (\<lambda>e. la_DagPath (snd e)) las"
proof (induction h lps act las rule: activeLights_loop.induct)
  case (1 h activeLightPaths las)
  then show ?case by simp
next
  case (2 h rest activeLightPaths las)
  then show ?case by simp
next
  case (3 h lightParam rest activeLightPaths las)
  then show ?case
    by (auto simp: Let_def tbl_update_keys tbl_update_dags split: option.splits list.splits)
qed

lemma lights_sweep_all_on:
  assumes "distinct (map (\<lambda>e. la_DagPath (snd e)) las)"
    and "(\<lambda>e. la_DagPath (snd e)) ` set las \<subseteq> fst ` set snap"
  shows "fst (lights_sweep las snap) = map (\<lambda>e. (fst e, (snd e)\<lparr>la_LightingOn := True\<rparr>)) las"
  using assms
proof (induction las arbitrary: snap)
  case Nil
  then show ?case by simp
next
  case (Cons e las)
  let ?d = "la_DagPath (snd e)"
  have "?d \<in> fst ` set snap"
    using Cons.prems(2) by auto
  then have here: "map_of snap (fullPathName ?d) \<noteq> None"
    unfolding fullPathName_def by (simp only: map_of_is_key)
  have nd: "?d \<notin> (\<lambda>e. la_DagPath (snd e)) ` set las"
    using Cons.prems(1) by simp
  have "(\<lambda>e. la_DagPath (snd e)) ` set las \<subseteq> fst ` set snap"
    using Cons.prems(2) by simp
  with nd have "(\<lambda>e. la_DagPath (snd e)) ` set las \<subseteq> fst ` set snap - {?d}"
    by blast
  then have rest: "(\<lambda>e. la_DagPath (snd e)) ` set las \<subseteq> fst ` set (tbl_erase (fullPathName ?d) snap)"
    by (simp only: tbl_erase_keys fullPathName_def)
  have "fst (lights_sweep las (tbl_erase (fullPathName ?d) snap))
          = map (\<lambda>e. (fst e, (snd e)\<lparr>la_LightingOn := True\<rparr>)) las"
    using Cons.prems(1) rest by (intro Cons.IH) simp_all
  then show ?case
    using here by (simp add: case_prod_beta)
qed

lemma map_of_map_snd:
  "map_of (map (\<lambda>e. (fst e, g (snd e))) t) P = map_option g (map_of t P)"
  by (induction t) auto

lemma CreateLightAdapter_keeps:
  "map_of (lightAdapters s) P = Some a
    \<Longrightarrow> map_of (lightAdapters (snd (CreateLightAdapter h dag s))) P = Some a"
  by (auto simp: CreateLightAdapter_def priv_CreateAdapter_def Let_def map_of_tbl_insert_keeps
      split: option.splits)

lemma CreateLightAdapter_distinct:
  "distinct (map fst (lightAdapters s))
    \<Longrightarrow> distinct (map fst (lightAdapters (snd (CreateLightAdapter h dag s))))"
  by (auto simp: CreateLightAdapter_def priv_CreateAdapter_def Let_def tbl_insert_distinct
      split: option.splits)

lemma create_lights_keeps:
  "map_of (lightAdapters s) P = Some a
    \<Longrightarrow> map_of (lightAdapters (create_lights h entries s)) P = Some a"
  by (induction entries arbitrary: s) (simp_all add: CreateLightAdapter_keeps)

lemma create_lights_distinct:
  "distinct (map fst (lightAdapters s))
    \<Longrightarrow> distinct (map fst (lightAdapters (create_lights h entries s)))"
  by (induction entries arbitrary: s) (simp_all add: CreateLightAdapter_distinct)

lemma lights_sweep_keys: "map fst (fst (lights_sweep las snap)) = map fst las"
  by (induction las arbitrary: snap) (auto simp: case_prod_beta)

lemma PreFrame_lights_on:
  assumes wf: "lights_wf h s" and P: "map_of (lightAdapters s) P = Some a"
  shows "\<exists>a'. map_of (lightAdapters (PreFrame_lights h ctx s)) P = Some a'
            \<and> la_LightingOn a' \<and> la_DagPath a' = la_DagPath a"
    and "distinct (map fst (lightAdapters (PreFrame_lights h ctx s)))"
proof -
  let ?act = "priv_GetActiveLightPaths s"
  let ?loop = "activeLights_loop h (getLightParameterInformation ctx) ?act (lightAdapters s)"
  let ?sweep = "lights_sweep (snd ?loop) (fst ?loop)"
  from P have "(P, a) \<in> set (lightAdapters s)"
    by (rule map_of_SomeD)
  then have "la_DagPath a \<in> fst ` set ?act"
    by (force simp: snapshot_keys)
  then have nonempty: "length ?act \<noteq> 0"
    by auto
  have eq: "PreFrame_lights h ctx s
      = create_lights h (snd ?sweep) (s\<lparr>lightAdapters := fst ?sweep\<rparr>)"
    using nonempty by (simp add: PreFrame_lights_def Let_def case_prod_beta)
  have keys1: "map fst (snd ?loop) = map fst (lightAdapters s)"
    and dags1: "map (\<lambda>e. la_DagPath (snd e)) (snd ?loop)
                 = map (\<lambda>e. la_DagPath (snd e)) (lightAdapters s)"
    using activeLights_loop_lights [of h "getLightParameterInformation ctx" ?act "lightAdapters s"]
    by simp_all
  have d1: "distinct (map (\<lambda>e. la_DagPath (snd e)) (snd ?loop))"
    using lights_wf_distinct_dags [OF wf] dags1 by simp
  have "(\<lambda>e. la_DagPath (snd e)) ` set (snd ?loop) = fst ` set ?act"
    using dags1 snapshot_keys [of s] by (metis image_set)
  then have sub: "(\<lambda>e. la_DagPath (snd e)) ` set (snd ?loop) \<subseteq> fst ` set (fst ?loop)"
    using activeLights_loop_keys [of ?act h "getLightParameterInformation ctx" "lightAdapters s"]
    by simp
  have sw: "fst ?sweep = map (\<lambda>e. (fst e, (snd e)\<lparr>la_LightingOn := True\<rparr>)) (snd ?loop)"
    using d1 sub by (rule lights_sweep_all_on)
  have "P \<in> set (map fst (snd ?loop))"
    using keys1 \<open>(P, a) \<in> set (lightAdapters s)\<close> by force
  then obtain a1 where a1: "map_of (snd ?loop) P = Some a1"
    by (metis map_of_eq_None_iff not_Some_eq set_map)
  have dk: "distinct (map fst (snd ?loop))"
    using keys1 wf by (simp add: lights_wf_def)
  have "(P, a1) \<in> set (snd ?loop)"
    using a1 by (rule map_of_SomeD)
  then obtain i where i: "i < length (snd ?loop)" "snd ?loop ! i = (P, a1)"
    by (auto simp: in_set_conv_nth)
  from \<open>(P, a) \<in> set (lightAdapters s)\<close> obtain j where j: "j < length (lightAdapters s)"
      "lightAdapters s ! j = (P, a)"
    by (auto simp: in_set_conv_nth)
  have len: "length (snd ?loop) = length (lightAdapters s)"
    using keys1 by (metis length_map)
  have "map fst (snd ?loop) ! i = P" "map fst (lightAdapters s) ! j = P"
    using i j by simp_all
  then have "i = j"
    using dk keys1 i(1) j(1) len by (metis distinct_conv_nth length_map)
  then have "la_DagPath a1 = la_DagPath a"
    using dags1 i j len
    by (metis nth_map snd_conv)
  have "map_of (fst ?sweep) P = Some (a1\<lparr>la_LightingOn := True\<rparr>)"
    using a1 by (simp add: sw map_of_map_snd)
  then have "map_of (lightAdapters (PreFrame_lights h ctx s)) P = Some (a1\<lparr>la_LightingOn := True\<rparr>)"
    by (simp add: eq create_lights_keeps)
  then show "\<exists>a'. map_of (lightAdapters (PreFrame_lights h ctx s)) P = Some a'
            \<and> la_LightingOn a' \<and> la_DagPath a' = la_DagPath a"
    using \<open>la_DagPath a1 = la_DagPath a\<close> by simp
  have "distinct (map fst (fst ?sweep))"
    using dk by (simp add: lights_sweep_keys)
  then show "distinct (map fst (lightAdapters (PreFrame_lights h ctx s)))"
    by (simp add: eq create_lights_distinct)
qed


lemma distinct_keys_filter:
  "distinct (map fst t) \<Longrightarrow> map_of t P = Some a \<Longrightarrow> filter (\<lambda>e. fst e = P) t = [(P, a)]"
proof (induction t)
  case Nil
  then show ?case by simp
next
  case (Cons e t)
  show ?case
  proof (cases "fst e = P")
    case True
    with Cons.prems have "P \<notin> fst ` set t" and "e = (P, a)"
      by (auto simp: prod_eq_iff)
    then have "filter (\<lambda>e. fst e = P) t = []"
      by (auto simp: filter_empty_conv)
    with \<open>e = (P, a)\<close> show ?thesis by simp
  next
    case False
    with Cons show ?thesis by auto
  qed
qed

lemma PreFrame_displayStyle_fields:
  "lightAdapters (PreFrame_displayStyle h ctx s) = lightAdapters s"
  "lightsToAdd (PreFrame_displayStyle h ctx s) = lightsToAdd s"
  "addedNodes (PreFrame_displayStyle h ctx s) = addedNodes s"
  "adaptersToRecreate (PreFrame_displayStyle h ctx s) = adaptersToRecreate s"
  by (simp_all add: PreFrame_displayStyle_def Let_def)

lemma PreFrame_materialTags_fields:
  "lightAdapters (PreFrame_materialTags h s) = lightAdapters s"
  "lightsToAdd (PreFrame_materialTags h s) = lightsToAdd s"
  "addedNodes (PreFrame_materialTags h s) = addedNodes s"
  "adaptersToRecreate (PreFrame_materialTags h s) = adaptersToRecreate s"
  by (simp_all add: PreFrame_materialTags_def Let_def materialTags_loop_fields)

lemma rebuild_loop_lights: "lightAdapters (rebuild_loop h its s) = lightAdapters s"
  by (induction its arbitrary: s) simp_all

lemma PreFrame_rebuild_lights: "lightAdapters (PreFrame_rebuild h s) = lightAdapters s"
  by (simp add: PreFrame_rebuild_def rebuild_loop_lights)

lemma PreFrame_nothing_pending:
  assumes "IsHdSt h" and "lightsToAdd s = []" and "addedNodes s = [] \<or> \<not> useMeshAdapter h"
    and "adaptersToRecreate s = []"
  shows "PreFrame h ctx s
    = PreFrame_lights h ctx
        (PreFrame_rebuild h (PreFrame_materialTags h (PreFrame_displayStyle h ctx s)))"
proof -
  let ?s2 = "PreFrame_materialTags h (PreFrame_displayStyle h ctx s)"
  have l: "PreFrame_lightsToAdd h ?s2 = Continues ?s2"
    using assms(2)
    by (simp add: PreFrame_lightsToAdd_def PreFrame_materialTags_fields PreFrame_displayStyle_fields)
  have n: "PreFrame_addedNodes h ?s2 = Continues ?s2"
    using assms(3)
    by (auto simp: PreFrame_addedNodes_def PreFrame_materialTags_fields PreFrame_displayStyle_fields)
  have r: "PreFrame_recreate h ?s2 = ?s2"
    using assms(4)
    by (simp add: PreFrame_recreate_def PreFrame_materialTags_fields PreFrame_displayStyle_fields)
  show ?thesis
    using assms(1) by (simp add: PreFrame_def Let_def l n r)
qed

text \<open>
  For every delegate with a light table as \<^verbatim>\<open>_CreateAdapter\<close> fills it and nothing
  pending for lights, nodes or recreation: after the pass on the Storm backend every
  light adapter that was there is on, whatever lights the draw context enumerates, and
  its path has exactly one entry. The branch of the sweep that turns a light off is not
  reached.
\<close>

lemma PreFrame_sweep_turns_every_light_on:
  assumes "IsHdSt h" and "lights_wf h s" and "lightsToAdd s = []"
    and "addedNodes s = [] \<or> \<not> useMeshAdapter h" and "adaptersToRecreate s = []"
    and "map_of (lightAdapters s) P = Some a"
  shows "(\<exists>a'. map_of (lightAdapters (PreFrame h ctx s)) P = Some a'
            \<and> la_LightingOn a' \<and> la_DagPath a' = la_DagPath a)
    \<and> length (filter (\<lambda>e. fst e = P) (lightAdapters (PreFrame h ctx s))) = 1"
proof -
  let ?s6 = "PreFrame_rebuild h (PreFrame_materialTags h (PreFrame_displayStyle h ctx s))"
  have eq: "PreFrame h ctx s = PreFrame_lights h ctx ?s6"
    using assms(1,3,4,5) by (rule PreFrame_nothing_pending)
  have la: "lightAdapters ?s6 = lightAdapters s"
    by (simp add: PreFrame_rebuild_lights PreFrame_materialTags_fields PreFrame_displayStyle_fields)
  have wf: "lights_wf h ?s6"
    using assms(2) by (simp add: lights_wf_def la)
  have P: "map_of (lightAdapters ?s6) P = Some a"
    using assms(6) by (simp add: la)
  obtain a' where a': "map_of (lightAdapters (PreFrame h ctx s)) P = Some a'"
      "la_LightingOn a'" "la_DagPath a' = la_DagPath a"
    using PreFrame_lights_on(1) [OF wf P, of ctx] by (auto simp: eq)
  have "distinct (map fst (lightAdapters (PreFrame h ctx s)))"
    using PreFrame_lights_on(2) [OF wf P, of ctx] by (simp add: eq)
  then have "filter (\<lambda>e. fst e = P) (lightAdapters (PreFrame h ctx s)) = [(P, a')]"
    using a'(1) by (rule distinct_keys_filter)
  with a' show ?thesis by simp
qed

text \<open>
  Claim C2 (the code departs from it). The adapter of light 1 exists, turned on by the
  frame before, and the draw context of this frame enumerates no light. After the pass
  the adapter's lighting is still on, where the claim and the source's own comment on
  the sweep (turn off non-active lights) have it off: the snapshot of active lights
  starts with the path of every light adapter, so the sweep finds each adapter's path in
  it. The rest of the claim holds of the code: when the light is enumerated its adapter
  is on, the table has the one adapter for its path, and no adapter was populated.
\<close>

theorem PreFrame_light_not_enumerated_is_on:
  "map_of (lightAdapters (exOneLight\<lparr>lightAdapters :=
       [(PrimPath ''/sprims|light1'', exLight ''|light1'')]\<rparr>)) (PrimPath ''/sprims|light1'')
     = Some (exLight ''|light1'')
   \<and> getLightParameterInformation exContext = []
   \<and> map_option la_LightingOn
        (map_of (lightAdapters (PreFrame exHost exContext
            (exOneLight\<lparr>lightAdapters := [(PrimPath ''/sprims|light1'', exLight ''|light1'')]\<rparr>)))
          (PrimPath ''/sprims|light1''))
      = Some True
   \<and> map_option la_LightingOn
        (map_of (lightAdapters (PreFrame exHost exContext exOneLight)) (PrimPath ''/sprims|light1''))
      = Some True
   \<and> calls (PreFrame exHost exContext exOneLight) = []
   \<and> lightAdapters
        (PreFrame exHost
           (exContext\<lparr>getLightParameterInformation :=
              [Some \<lparr>lightPath = ''|light1'', lightPath_isValid = True, kShadowOn = None,
                      kShadowViewProj = None\<rparr>]\<rparr>)
           exOneLight)
       = [(PrimPath ''/sprims|light1'', exLight ''|light1'')]
   \<and> calls
        (PreFrame exHost
           (exContext\<lparr>getLightParameterInformation :=
              [Some \<lparr>lightPath = ''|light1'', lightPath_isValid = True, kShadowOn = None,
                      kShadowViewProj = None\<rparr>]\<rparr>)
           exOneLight)
       = []"
  by (simp add: ex_defs exOneLight_def step_defs)

subsection \<open>What the private render-item operations keep\<close>

text \<open>
  \<^verbatim>\<open>_AddRenderItem\<close> with two fresh keys and \<^verbatim>\<open>_RemoveRenderItem\<close> of an adapter found
  by its fast key keep the two tables in agreement; \<^verbatim>\<open>RemoveAdapter\<close> does not (claim C1).
\<close>

lemma map_of_tbl_erase:
  "map_of (tbl_erase k t) k' = (if k' = k then None else map_of t k')"
  by (induction t) (auto simp: tbl_erase_def)

lemma map_of_tbl_insert_fresh:
  "map_of t k = None
    \<Longrightarrow> map_of (tbl_insert k v t) k' = (if k' = k then Some v else map_of t k')"
  by (auto simp: tbl_insert_def map_add_def split: option.splits)

lemma renderItems_consistentD:
  assumes "renderItems_consistent s"
  shows "e \<in> set (renderItemsAdaptersFast s) \<Longrightarrow> ria_FastID (snd e) = fst e"
    and "e \<in> set (renderItemsAdaptersFast s)
          \<Longrightarrow> map_of (renderItemsAdapters s) (ria_ID (snd e)) = Some (snd e)"
    and "p \<in> set (renderItemsAdapters s) \<Longrightarrow> ria_ID (snd p) = fst p"
    and "p \<in> set (renderItemsAdapters s)
          \<Longrightarrow> map_of (renderItemsAdaptersFast s) (ria_FastID (snd p)) = Some (snd p)"
  using assms unfolding renderItems_consistent_def list_all_iff by blast+

lemma priv_AddRenderItem_consistent:
  assumes c: "renderItems_consistent s"
    and f: "priv_GetRenderItem (ria_FastID ria) s = None"
    and p: "map_of (renderItemsAdapters s) (ria_ID ria) = None"
  shows "renderItems_consistent (priv_AddRenderItem ria s)"
proof -
  from f have f': "map_of (renderItemsAdaptersFast s) (ria_FastID ria) = None"
    by (simp add: priv_GetRenderItem_def)
  have af: "renderItemsAdaptersFast (priv_AddRenderItem ria s)
              = tbl_insert (ria_FastID ria) ria (renderItemsAdaptersFast s)"
    and ap: "renderItemsAdapters (priv_AddRenderItem ria s)
              = tbl_insert (ria_ID ria) ria (renderItemsAdapters s)"
    by (simp_all add: priv_AddRenderItem_def)
  have 1: "ria_FastID (snd e) = fst e
        \<and> map_of (tbl_insert (ria_ID ria) ria (renderItemsAdapters s)) (ria_ID (snd e)) = Some (snd e)"
    if "e \<in> set (tbl_insert (ria_FastID ria) ria (renderItemsAdaptersFast s))" for e
  proof (cases "e \<in> set (renderItemsAdaptersFast s)")
    case True
    note k = renderItems_consistentD(1) [OF c True] and m = renderItems_consistentD(2) [OF c True]
    have "ria_ID (snd e) \<noteq> ria_ID ria"
    proof
      assume eq: "ria_ID (snd e) = ria_ID ria"
      from m have "map_of (renderItemsAdapters s) (ria_ID ria) = Some (snd e)"
        by (simp only: eq)
      with p show False by simp
    qed
    then show ?thesis
      using k m by (simp add: map_of_tbl_insert_fresh [OF p])
  next
    case False
    with that have "e = (ria_FastID ria, ria)"
      by (simp add: tbl_insert_def f')
    then show ?thesis
      by (simp add: map_of_tbl_insert_fresh [OF p])
  qed
  have 2: "ria_ID (snd e) = fst e
        \<and> map_of (tbl_insert (ria_FastID ria) ria (renderItemsAdaptersFast s)) (ria_FastID (snd e))
          = Some (snd e)"
    if "e \<in> set (tbl_insert (ria_ID ria) ria (renderItemsAdapters s))" for e
  proof (cases "e \<in> set (renderItemsAdapters s)")
    case True
    note k = renderItems_consistentD(3) [OF c True] and m = renderItems_consistentD(4) [OF c True]
    have "ria_FastID (snd e) \<noteq> ria_FastID ria"
    proof
      assume eq: "ria_FastID (snd e) = ria_FastID ria"
      from m have "map_of (renderItemsAdaptersFast s) (ria_FastID ria) = Some (snd e)"
        by (simp only: eq)
      with f' show False by simp
    qed
    then show ?thesis
      using k m by (simp add: map_of_tbl_insert_fresh [OF f'])
  next
    case False
    with that have "e = (ria_ID ria, ria)"
      by (simp add: tbl_insert_def p)
    then show ?thesis
      by (simp add: map_of_tbl_insert_fresh [OF f'])
  qed
  show ?thesis
    unfolding renderItems_consistent_def list_all_iff af ap using 1 2 by blast
qed

lemma priv_RemoveRenderItem_consistent:
  assumes c: "renderItems_consistent s"
    and g: "priv_GetRenderItem fastId s = Some ria"
  shows "renderItems_consistent (priv_RemoveRenderItem ria s)"
proof -
  from g have mem: "(fastId, ria) \<in> set (renderItemsAdaptersFast s)"
    unfolding priv_GetRenderItem_def by (rule map_of_SomeD)
  have fid: "ria_FastID ria = fastId"
    using renderItems_consistentD(1) [OF c mem] by simp
  have pm: "map_of (renderItemsAdapters s) (ria_ID ria) = Some ria"
    using renderItems_consistentD(2) [OF c mem] by simp
  have fm: "map_of (renderItemsAdaptersFast s) (ria_FastID ria) = Some ria"
    using g unfolding priv_GetRenderItem_def fid .
  have rf: "renderItemsAdaptersFast (priv_RemoveRenderItem ria s)
              = tbl_erase (ria_FastID ria) (renderItemsAdaptersFast s)"
    and rp: "renderItemsAdapters (priv_RemoveRenderItem ria s)
              = tbl_erase (ria_ID ria) (renderItemsAdapters s)"
    by (simp_all add: priv_RemoveRenderItem_def)
  have 1: "ria_FastID (snd e) = fst e
        \<and> map_of (tbl_erase (ria_ID ria) (renderItemsAdapters s)) (ria_ID (snd e)) = Some (snd e)"
    if "e \<in> set (tbl_erase (ria_FastID ria) (renderItemsAdaptersFast s))" for e
  proof -
    from that have e: "e \<in> set (renderItemsAdaptersFast s)" and ne: "fst e \<noteq> ria_FastID ria"
      unfolding tbl_erase_def by simp_all
    note k = renderItems_consistentD(1) [OF c e] and m = renderItems_consistentD(2) [OF c e]
    have "ria_ID (snd e) \<noteq> ria_ID ria"
    proof
      assume eq: "ria_ID (snd e) = ria_ID ria"
      from m have "map_of (renderItemsAdapters s) (ria_ID ria) = Some (snd e)"
        by (simp only: eq)
      with pm have "snd e = ria" by simp
      with k have "fst e = ria_FastID ria" by simp
      with ne show False by simp
    qed
    then have "map_of (tbl_erase (ria_ID ria) (renderItemsAdapters s)) (ria_ID (snd e))
                 = map_of (renderItemsAdapters s) (ria_ID (snd e))"
      by (simp add: map_of_tbl_erase)
    with k m show ?thesis by simp
  qed
  have 2: "ria_ID (snd e) = fst e
        \<and> map_of (tbl_erase (ria_FastID ria) (renderItemsAdaptersFast s)) (ria_FastID (snd e))
          = Some (snd e)"
    if "e \<in> set (tbl_erase (ria_ID ria) (renderItemsAdapters s))" for e
  proof -
    from that have e: "e \<in> set (renderItemsAdapters s)" and ne: "fst e \<noteq> ria_ID ria"
      unfolding tbl_erase_def by simp_all
    note k = renderItems_consistentD(3) [OF c e] and m = renderItems_consistentD(4) [OF c e]
    have "ria_FastID (snd e) \<noteq> ria_FastID ria"
    proof
      assume eq: "ria_FastID (snd e) = ria_FastID ria"
      from m have "map_of (renderItemsAdaptersFast s) (ria_FastID ria) = Some (snd e)"
        by (simp only: eq)
      with fm have "snd e = ria" by simp
      with k have "fst e = ria_ID ria" by simp
      with ne show False by simp
    qed
    then have "map_of (tbl_erase (ria_FastID ria) (renderItemsAdaptersFast s)) (ria_FastID (snd e))
                 = map_of (renderItemsAdaptersFast s) (ria_FastID (snd e))"
      by (simp add: map_of_tbl_erase)
    with k m show ?thesis by simp
  qed
  show ?thesis
    unfolding renderItems_consistent_def list_all_iff rf rp using 1 2 by blast
qed

subsection \<open>The recreate and rebuild steps for every delegate\<close>

lemma CreateAdapter_queues:
  "adaptersToRebuild (snd (CreateLightAdapter h dag s)) = adaptersToRebuild s"
  "adaptersToRebuild (snd (CreateCameraAdapter h dag s)) = adaptersToRebuild s"
  "adaptersToRebuild (snd (CreateShapeAdapter h dag s)) = adaptersToRebuild s"
  "adaptersToRecreate (snd (CreateLightAdapter h dag s)) = adaptersToRecreate s"
  "adaptersToRecreate (snd (CreateCameraAdapter h dag s)) = adaptersToRecreate s"
  "adaptersToRecreate (snd (CreateShapeAdapter h dag s)) = adaptersToRecreate s"
  by (simp_all add: CreateLightAdapter_def CreateCameraAdapter_def CreateShapeAdapter_def
      case_prod_beta)

lemma priv_CreateMaterial_queues:
  "adaptersToRebuild (snd (priv_CreateMaterial h ident obj s)) = adaptersToRebuild s"
  "adaptersToRecreate (snd (priv_CreateMaterial h ident obj s)) = adaptersToRecreate s"
  by (simp_all add: priv_CreateMaterial_def Let_def split: option.splits)

lemma InsertDag_queues:
  "adaptersToRebuild (InsertDag h dag s) = adaptersToRebuild s"
  "adaptersToRecreate (InsertDag h dag s) = adaptersToRecreate s"
  by (simp_all add: InsertDag_def Let_def case_prod_beta CreateAdapter_queues
      priv_CreateMaterial_queues split: option.splits)

lemma RecreateAdapter_queues:
  "adaptersToRebuild (RecreateAdapter h ident obj s) = adaptersToRebuild s"
  "adaptersToRecreate (RecreateAdapter h ident obj s) = adaptersToRecreate s"
  by (simp_all add: RecreateAdapter_def Let_def OnDagNodeAdded_def InsertDag_queues
      priv_CreateMaterial_queues split: option.splits)

lemma erase_rebuild_keys:
  "distinct (map fst q) \<Longrightarrow> fst ` set (erase_rebuild ident q) = fst ` set q - {ident}"
  by (induction q) auto

lemma erase_rebuild_distinct: "distinct (map fst q) \<Longrightarrow> distinct (map fst (erase_rebuild ident q))"
proof (induction q)
  case Nil
  then show ?case by simp
next
  case (Cons itr q)
  then have "fst ` set (erase_rebuild ident q) = fst ` set q - {ident}"
    by (simp add: erase_rebuild_keys)
  with Cons show ?case by auto
qed

lemma recreate_loop_rebuild_queue:
  "distinct (map fst (adaptersToRebuild s))
    \<Longrightarrow> distinct (map fst (adaptersToRebuild (recreate_loop h its s)))
      \<and> fst ` set (adaptersToRebuild (recreate_loop h its s))
          = fst ` set (adaptersToRebuild s) - fst ` set its"
proof (induction its arbitrary: s)
  case Nil
  then show ?case by simp
next
  case (Cons it its)
  let ?s1 = "RecreateAdapter h (fst it) (snd it) s"
  let ?s2 = "?s1\<lparr>adaptersToRebuild := erase_rebuild (fst it) (adaptersToRebuild ?s1)\<rparr>"
  have d: "distinct (map fst (adaptersToRebuild ?s2))"
    using Cons.prems by (simp add: RecreateAdapter_queues erase_rebuild_distinct)
  have k: "fst ` set (adaptersToRebuild ?s2) = fst ` set (adaptersToRebuild s) - {fst it}"
    using Cons.prems by (simp add: RecreateAdapter_queues erase_rebuild_keys)
  from Cons.IH [OF d] k show ?case
    by (auto simp: Let_def)
qed

lemma rebuild_loop_fields:
  "adaptersToRecreate (rebuild_loop h its s) = adaptersToRecreate s"
  "shapeAdapters (rebuild_loop h its s) = shapeAdapters s"
  "lightAdapters (rebuild_loop h its s) = lightAdapters s"
  "materialAdapters (rebuild_loop h its s) = materialAdapters s"
  by (induction its arbitrary: s) simp_all

lemma rebuild_calls_tables:
  "shapeAdapters s' = shapeAdapters s \<Longrightarrow> lightAdapters s' = lightAdapters s
    \<Longrightarrow> materialAdapters s' = materialAdapters s \<Longrightarrow> rebuild_calls h it s' = rebuild_calls h it s"
  by (simp add: rebuild_calls_def as_adapters_def)

lemma rebuild_loop_calls:
  "calls (rebuild_loop h its s) = calls s @ concat (map (\<lambda>it. rebuild_calls h it s) its)"
proof (induction its arbitrary: s)
  case Nil
  then show ?case by simp
next
  case (Cons it its)
  have "rebuild_calls h x (s\<lparr>calls := calls s @ rebuild_calls h it s\<rparr>) = rebuild_calls h x s" for x
    by (rule rebuild_calls_tables) simp_all
  then show ?case
    by (simp add: Cons.IH)
qed

lemma create_lights_queues:
  "adaptersToRebuild (create_lights h entries s) = adaptersToRebuild s"
  "adaptersToRecreate (create_lights h entries s) = adaptersToRecreate s"
  by (induction entries arbitrary: s) (simp_all add: CreateAdapter_queues)

lemma PreFrame_lights_queues:
  "adaptersToRebuild (PreFrame_lights h ctx s) = adaptersToRebuild s"
  "adaptersToRecreate (PreFrame_lights h ctx s) = adaptersToRecreate s"
  by (simp_all add: PreFrame_lights_def Let_def create_lights_queues split: prod.splits)

text \<open>
  The recreate and rebuild steps, once the pass reaches them: both queues end empty, an
  identity with a recreate pending has no rebuild left when the rebuild step starts, and
  the rebuild step makes calls for the entries left only.
\<close>

lemma PreFrame_recreate_supersedes_rebuild:
  assumes "distinct (map fst (adaptersToRebuild s))" and "ident \<in> fst ` set (adaptersToRecreate s)"
  shows "adaptersToRecreate (PreFrame_recreate h s) = []"
    and "ident \<notin> fst ` set (adaptersToRebuild (PreFrame_recreate h s))"
    and "adaptersToRecreate (PreFrame_rebuild h (PreFrame_recreate h s)) = []"
    and "adaptersToRebuild (PreFrame_rebuild h (PreFrame_recreate h s)) = []"
    and "calls (PreFrame_rebuild h (PreFrame_recreate h s))
          = calls (PreFrame_recreate h s)
            @ concat (map (\<lambda>it. rebuild_calls h it (PreFrame_recreate h s))
                (adaptersToRebuild (PreFrame_recreate h s)))"
proof -
  show r: "adaptersToRecreate (PreFrame_recreate h s) = []"
    by (simp add: PreFrame_recreate_def)
  have ne: "adaptersToRecreate s \<noteq> []"
    using assms(2) by auto
  show "ident \<notin> fst ` set (adaptersToRebuild (PreFrame_recreate h s))"
    using recreate_loop_rebuild_queue [OF assms(1), of h "adaptersToRecreate s"] assms(2) ne
    by (simp add: PreFrame_recreate_def)
  show "adaptersToRecreate (PreFrame_rebuild h (PreFrame_recreate h s)) = []"
    using r by (simp add: PreFrame_rebuild_def rebuild_loop_fields)
  show "adaptersToRebuild (PreFrame_rebuild h (PreFrame_recreate h s)) = []"
    by (simp add: PreFrame_rebuild_def)
  show "calls (PreFrame_rebuild h (PreFrame_recreate h s))
          = calls (PreFrame_recreate h s)
            @ concat (map (\<lambda>it. rebuild_calls h it (PreFrame_recreate h s))
                (adaptersToRebuild (PreFrame_recreate h s)))"
    by (simp add: PreFrame_rebuild_def rebuild_loop_calls)
qed

lemma PreFrame_queues_drained:
  assumes "PreFrame_lightsToAdd h (PreFrame_materialTags h (PreFrame_displayStyle h ctx s))
             = Continues s3"
    and "PreFrame_addedNodes h s3 = Continues s4"
  shows "adaptersToRecreate (PreFrame h ctx s) = [] \<and> adaptersToRebuild (PreFrame h ctx s) = []"
proof -
  let ?s6 = "PreFrame_rebuild h (PreFrame_recreate h s4)"
  have "adaptersToRecreate ?s6 = []"
    by (simp add: PreFrame_rebuild_def PreFrame_recreate_def rebuild_loop_fields)
  moreover have "adaptersToRebuild ?s6 = []"
    by (simp add: PreFrame_rebuild_def)
  moreover have "PreFrame h ctx s = (if \<not> IsHdSt h then ?s6 else PreFrame_lights h ctx ?s6)"
    using assms by (simp add: PreFrame_def Let_def)
  ultimately show ?thesis
    by (simp add: PreFrame_lights_queues)
qed

text \<open>
  The early return, for every delegate: when the first queued light has no path, the pass
  ends after the material-tag step.
\<close>

lemma PreFrame_returns_at_first_light:
  assumes "lightsToAdd s = obj # rest" and "getAPathTo h obj = None"
  shows "PreFrame h ctx s = PreFrame_materialTags h (PreFrame_displayStyle h ctx s)"
proof -
  let ?s2 = "PreFrame_materialTags h (PreFrame_displayStyle h ctx s)"
  have "lightsToAdd ?s2 = obj # rest"
    using assms(1) by (simp add: PreFrame_materialTags_fields PreFrame_displayStyle_fields)
  then have "PreFrame_lightsToAdd h ?s2 = Returned ?s2"
    using assms(2) by (simp add: PreFrame_lightsToAdd_def)
  then show ?thesis
    by (simp add: PreFrame_def Let_def)
qed

subsection \<open>The pass and the node queues\<close>

lemma queues_wf_cong:
  "lightsToAdd s' = lightsToAdd s \<Longrightarrow> addedNodes s' = addedNodes s
    \<Longrightarrow> queues_wf h s' = queues_wf h s"
  by (simp add: queues_wf_def)

lemma CreateAdapter_nodes:
  "lightsToAdd (snd (CreateLightAdapter h dag s)) = lightsToAdd s"
  "lightsToAdd (snd (CreateCameraAdapter h dag s)) = lightsToAdd s"
  "lightsToAdd (snd (CreateShapeAdapter h dag s)) = lightsToAdd s"
  "addedNodes (snd (CreateLightAdapter h dag s)) = addedNodes s"
  "addedNodes (snd (CreateCameraAdapter h dag s)) = addedNodes s"
  "addedNodes (snd (CreateShapeAdapter h dag s)) = addedNodes s"
  by (simp_all add: CreateLightAdapter_def CreateCameraAdapter_def CreateShapeAdapter_def
      case_prod_beta)

lemma priv_CreateMaterial_nodes:
  "lightsToAdd (snd (priv_CreateMaterial h ident obj s)) = lightsToAdd s"
  "addedNodes (snd (priv_CreateMaterial h ident obj s)) = addedNodes s"
  by (simp_all add: priv_CreateMaterial_def Let_def split: option.splits)

lemma InsertDag_nodes:
  "lightsToAdd (InsertDag h dag s) = lightsToAdd s"
  "addedNodes (InsertDag h dag s) = addedNodes s"
  by (simp_all add: InsertDag_def Let_def case_prod_beta CreateAdapter_nodes
      priv_CreateMaterial_nodes split: option.splits)

lemma AddNewInstance_nodes:
  "lightsToAdd (AddNewInstance h dag s) = lightsToAdd s"
  "addedNodes (AddNewInstance h dag s) = addedNodes s"
  by (simp_all add: AddNewInstance_def Let_def RecreateAdapterOnIdle_def RebuildAdapterOnIdle_def
      split: list.splits option.splits)

lemma queues_wf_update:
  "queues_wf h (s\<lparr>calls := c\<rparr>) = queues_wf h s"
  "queues_wf h (s\<lparr>lightAdapters := l\<rparr>) = queues_wf h s"
  "queues_wf h (s\<lparr>shapeAdapters := sh\<rparr>) = queues_wf h s"
  "queues_wf h (s\<lparr>materialAdapters := m\<rparr>) = queues_wf h s"
  "queues_wf h (s\<lparr>adaptersToRebuild := q\<rparr>) = queues_wf h s"
  "queues_wf h (s\<lparr>adaptersToRecreate := r\<rparr>) = queues_wf h s"
  by (simp_all add: queues_wf_def)

lemma RecreateAdapter_wf: "queues_wf h s \<Longrightarrow> queues_wf h (RecreateAdapter h ident obj s)"
proof -
  assume wf: "queues_wf h s"
  have ins: "queues_wf h (InsertDag h path t) = queues_wf h t" for path t
    by (rule queues_wf_cong) (simp_all add: InsertDag_nodes)
  have mat: "queues_wf h (snd (priv_CreateMaterial h i ob t)) = queues_wf h t" for i ob t
    by (rule queues_wf_cong) (simp_all add: priv_CreateMaterial_nodes)
  show ?thesis
    using wf
    by (simp add: RecreateAdapter_def Let_def queues_wf_update ins mat OnDagNodeAdded_wf
        split: option.splits)
qed

lemma lightsToAdd_loop_nodes:
  "lightsToAdd (flow_state (lightsToAdd_loop h objs s)) = lightsToAdd s"
  "addedNodes (flow_state (lightsToAdd_loop h objs s)) = addedNodes s"
  by (induction objs arbitrary: s) (simp_all add: CreateAdapter_nodes split: option.splits)

lemma children_loop_nodes:
  "lightsToAdd (children_loop h dags s) = lightsToAdd s"
  "addedNodes (children_loop h dags s) = addedNodes s"
  by (induction dags arbitrary: s) (simp_all add: AddNewInstance_nodes)

lemma addedNodes_loop_nodes:
  "lightsToAdd (flow_state (addedNodes_loop h objs s)) = lightsToAdd s"
  "addedNodes (flow_state (addedNodes_loop h objs s)) = addedNodes s"
  by (induction objs arbitrary: s)
    (simp_all add: children_loop_nodes InsertDag_nodes split: option.splits)

lemma recreate_loop_wf: "queues_wf h s \<Longrightarrow> queues_wf h (recreate_loop h its s)"
proof (induction its arbitrary: s)
  case Nil
  then show ?case by simp
next
  case (Cons it its)
  let ?s1 = "RecreateAdapter h (fst it) (snd it) s"
  have "queues_wf h ?s1"
    using Cons.prems by (rule RecreateAdapter_wf)
  then have "queues_wf h (?s1\<lparr>adaptersToRebuild := erase_rebuild (fst it) (adaptersToRebuild ?s1)\<rparr>)"
    by (simp only: queues_wf_update)
  then show ?case
    by (simp add: Let_def Cons.IH)
qed

lemma rebuild_loop_nodes:
  "lightsToAdd (rebuild_loop h its s) = lightsToAdd s"
  "addedNodes (rebuild_loop h its s) = addedNodes s"
  by (induction its arbitrary: s) simp_all

lemma create_lights_nodes:
  "lightsToAdd (create_lights h entries s) = lightsToAdd s"
  "addedNodes (create_lights h entries s) = addedNodes s"
  by (induction entries arbitrary: s) (simp_all add: CreateAdapter_nodes)

lemma PreFrame_lights_nodes:
  "lightsToAdd (PreFrame_lights h ctx s) = lightsToAdd s"
  "addedNodes (PreFrame_lights h ctx s) = addedNodes s"
  by (simp_all add: PreFrame_lights_def Let_def create_lights_nodes split: prod.splits)

text \<open>The pass keeps the node queues well-formed, whether it returns early or not.\<close>

lemma PreFrame_queues_wf:
  assumes "queues_wf h s"
  shows "queues_wf h (PreFrame h ctx s)"
proof -
  let ?s2 = "PreFrame_materialTags h (PreFrame_displayStyle h ctx s)"
  have wf2: "queues_wf h ?s2"
    using assms
    by (simp add: queues_wf_def PreFrame_materialTags_fields PreFrame_displayStyle_fields)
  have wf3: "queues_wf h (flow_state (PreFrame_lightsToAdd h t))" if "queues_wf h t" for t
  proof -
    have "addedNodes (flow_state (PreFrame_lightsToAdd h t)) = addedNodes t"
      using lightsToAdd_loop_nodes(2) [of h "lightsToAdd t" t]
      by (auto simp: PreFrame_lightsToAdd_def split: Flow.splits)
    moreover have "lightsToAdd (flow_state (PreFrame_lightsToAdd h t)) = lightsToAdd t
        \<or> lightsToAdd (flow_state (PreFrame_lightsToAdd h t)) = []"
      using lightsToAdd_loop_nodes(1) [of h "lightsToAdd t" t]
      by (auto simp: PreFrame_lightsToAdd_def split: Flow.splits)
    ultimately show ?thesis
      using that by (auto simp: queues_wf_def)
  qed
  have wf4: "queues_wf h (flow_state (PreFrame_addedNodes h t))" if "queues_wf h t" for t
  proof -
    have "lightsToAdd (flow_state (PreFrame_addedNodes h t)) = lightsToAdd t"
      using addedNodes_loop_nodes(1) [of h "addedNodes t" t]
      by (auto simp: PreFrame_addedNodes_def split: Flow.splits)
    moreover have "addedNodes (flow_state (PreFrame_addedNodes h t)) = addedNodes t
        \<or> addedNodes (flow_state (PreFrame_addedNodes h t)) = []"
      using addedNodes_loop_nodes(2) [of h "addedNodes t" t]
      by (auto simp: PreFrame_addedNodes_def split: Flow.splits)
    ultimately show ?thesis
      using that by (auto simp: queues_wf_def)
  qed
  have wf5: "queues_wf h (PreFrame_recreate h t)" if "queues_wf h t" for t
    using recreate_loop_wf [OF that, of "adaptersToRecreate t"] that
    by (simp add: PreFrame_recreate_def queues_wf_def)
  have wf6: "queues_wf h (PreFrame_rebuild h t)" if "queues_wf h t" for t
    using that by (simp add: PreFrame_rebuild_def queues_wf_def rebuild_loop_nodes)
  have wf7: "queues_wf h (PreFrame_lights h ctx t)" if "queues_wf h t" for t
    using that by (simp add: queues_wf_def PreFrame_lights_nodes)
  show ?thesis
  proof (cases "PreFrame_lightsToAdd h ?s2")
    case (Returned r)
    with wf3 [OF wf2] show ?thesis by (simp add: PreFrame_def)
  next
    case (Continues s3)
    with wf3 [OF wf2] have w3: "queues_wf h s3" by simp
    show ?thesis
    proof (cases "PreFrame_addedNodes h s3")
      case (Returned r)
      with wf4 [OF w3] Continues show ?thesis by (simp add: PreFrame_def)
    next
      case c4: (Continues s4)
      with wf4 [OF w3] have w4: "queues_wf h s4" by simp
      show ?thesis
        using Continues c4 wf6 [OF wf5 [OF w4]] wf7 [OF wf6 [OF wf5 [OF w4]]]
        by (simp add: PreFrame_def Let_def)
    qed
  qed
qed

end
